theory Spec2Isabelle
  imports Main "HOL-Library.AList"
begin

section \<open>The drag-and-drop context of the article lists\<close>

text \<open>
  The development embeds the three event handlers of
  \<^verbatim>\<open>components/ArticleList/DraggableContext.tsx\<close>:
  \<^verbatim>\<open>handleDragStart\<close>, \<^verbatim>\<open>handleDragOver\<close> and \<^verbatim>\<open>handleDragEnd\<close>.
  The React state of the component, the list cache it mutates in place and every call it
  makes on its collaborators (the Replicache mutators, \<^verbatim>\<open>reportEvent\<close>,
  \<^verbatim>\<open>setArticleLists\<close>, \<^verbatim>\<open>console.error\<close>) are made explicit.

  A handler is a function from the component as the previous handler left it (the
  component renders between two events, and its caller keeps passing the same cache
  object) to the component it leaves, or to an error when the JavaScript throws.
\<close>

subsection \<open>Data\<close>

text \<open>
  Of an \<^verbatim>\<open>Article\<close> the handlers read \<^verbatim>\<open>id\<close>, \<^verbatim>\<open>topic_id\<close> (optional) and
  \<^verbatim>\<open>url\<close>. The field \<^verbatim>\<open>id\<close> is written \<open>id'\<close>, since \<open>id\<close> is the identity
  function of HOL.
\<close>

record Article =
  id' :: string
  topic_id :: "string option"
  url :: string

text \<open>
  \<^verbatim>\<open>ArticleListsCache = { [listId: string]: Article[] }\<close>. The handlers enumerate the
  object with \<^verbatim>\<open>Object.keys\<close> and take the first list that matches, so the order of the
  keys matters: the cache is an association list in \<^verbatim>\<open>Object.keys\<close> order. Reading a
  key is \<open>map_of\<close>; assigning to a key is \<open>AList.update\<close>, which overwrites an existing
  key in place and appends a new one, as a JavaScript object does for its string keys.
\<close>

type_synonym ArticleListsCache = "(string \<times> Article list) list"

datatype ArticleSortPosition =
    recency_sort_position
  | queue_sort_position
  | favorites_sort_position
  | topic_sort_position
  | domain_sort_position

text \<open>
  The \<^verbatim>\<open>active\<close> and \<^verbatim>\<open>over\<close> parts of a drag event: the identifier and whether
  \<^verbatim>\<open>data.current\<close> is truthy. An absent \<^verbatim>\<open>over\<close> (\<^verbatim>\<open>null\<close>) is \<open>None\<close>.
\<close>

record Active =
  active_id :: string
  active_data :: bool

record Over =
  over_id :: string
  over_data :: bool

text \<open>
  What the handlers do to the outside, in the order in which they do it. Neighbour
  identifiers are optional: \<open>None\<close> stands for an absent neighbour (\<^verbatim>\<open>undefined\<close> in
  \<^verbatim>\<open>handleDragOver\<close>, \<^verbatim>\<open>null\<close> in \<^verbatim>\<open>handleDragEnd\<close>). The third argument of
  \<open>UpdateArticle\<close> is \<^verbatim>\<open>queue_sort_position\<close>, given by only one of the two calls.
\<close>

datatype effect =
    UpdateArticle string bool "int option"
  | MoveArticlePosition string "string option" "string option" ArticleSortPosition
  | ReportEvent string
  | SetArticleLists ArticleListsCache
  | ConsoleError string

text \<open>
  The callback that \<^verbatim>\<open>handleDragOver\<close> chains with \<^verbatim>\<open>.then\<close> to the promise of
  \<^verbatim>\<open>updateArticle\<close>. It closes over \<^verbatim>\<open>targetList\<close>, \<^verbatim>\<open>targetIndex\<close> and
  \<^verbatim>\<open>activeArticle.id\<close>, and over the cache object, which it reads when it runs.
\<close>

record thenCallback =
  cb_targetList :: string
  cb_targetIndex :: int
  cb_articleId :: string

text \<open>
  The component: the \<^verbatim>\<open>articleLists\<close> property (optional, and mutated in place), the
  two \<^verbatim>\<open>useState\<close> cells, the effects so far and the callbacks waiting for their promise.
\<close>

record world =
  articleLists :: "ArticleListsCache option"
  activeListId :: "string option"
  activeArticle :: "Article option"
  trace :: "effect list"
  pending :: "thenCallback list"

text \<open>
  What an event finds around it: whether the Replicache context holds a client
  (\<^verbatim>\<open>rep?.mutate\<close> does nothing without one), the clock read by
  \<^verbatim>\<open>new Date().getTime()\<close>, and \<^verbatim>\<open>getDomain\<close>, which is imported from another
  module and taken as a parameter.
\<close>

record env =
  rep :: bool
  now :: int
  getDomain :: "string \<Rightarrow> string option"

text \<open>
  \<open>TypeError\<close>: a method is called on \<^verbatim>\<open>undefined\<close>, because a list identifier is no
  key of the cache. \<open>UndefinedElement\<close>: \<^verbatim>\<open>arrayMove\<close> found nothing to remove and
  inserted \<^verbatim>\<open>undefined\<close>, so that the list is no \<^verbatim>\<open>Article[]\<close> any more.
\<close>

datatype error = TypeError | UndefinedElement

subsection \<open>JavaScript strings and arrays\<close>

definition truthy :: "string option \<Rightarrow> string option" where
  "truthy s = (case s of None \<Rightarrow> None | Some x \<Rightarrow> if x = [] then None else Some x)"

definition endsWith :: "string \<Rightarrow> string \<Rightarrow> bool" where
  "endsWith s suf =
     (length suf \<le> length s \<and> drop (length s - length suf) s = suf)"

definition includes' :: "string \<Rightarrow> string \<Rightarrow> bool" where
  "includes' s sub =
     (length sub \<le> length s \<and>
      list_ex (\<lambda>i. take (length sub) (drop i s) = sub) [0 ..< Suc (length s - length sub)])"

text \<open>\<^verbatim>\<open>findIndex\<close>: the first position that satisfies the test, \<open>-1\<close> when there is none.\<close>

fun findIndex :: "('a \<Rightarrow> bool) \<Rightarrow> 'a list \<Rightarrow> int" where
  "findIndex P [] = - 1"
| "findIndex P (x # xs) =
     (if P x then 0 else (let r = findIndex P xs in if r < 0 then - 1 else r + 1))"

text \<open>\<^verbatim>\<open>xs[i]\<close>: \<^verbatim>\<open>undefined\<close> outside the array, also for a negative index.\<close>

definition js_index :: "'a list \<Rightarrow> int \<Rightarrow> 'a option" where
  "js_index xs i = (if 0 \<le> i \<and> i < int (length xs) then Some (xs ! nat i) else None)"

text \<open>
  How \<^verbatim>\<open>slice\<close> and \<^verbatim>\<open>splice\<close> read a position of an array of length \<open>n\<close>: a negative one
  counts from the end, and the result is clamped to \<open>0..n\<close>.
\<close>

definition relative_index :: "int \<Rightarrow> nat \<Rightarrow> nat" where
  "relative_index i n = (if i < 0 then nat (max (int n + i) 0) else min (nat i) n)"

definition slice :: "'a list \<Rightarrow> int \<Rightarrow> int \<Rightarrow> 'a list" where
  "slice xs start stop =
     (let k = relative_index start (length xs); final = relative_index stop (length xs)
      in take (final - k) (drop k xs))"

definition slice_from :: "'a list \<Rightarrow> int \<Rightarrow> 'a list" where
  "slice_from xs start = drop (relative_index start (length xs)) xs"

text \<open>
  \<^verbatim>\<open>arrayMove\<close> of \<^verbatim>\<open>@dnd-kit/sortable\<close>:
  \<^verbatim>\<open>
  const newArray = array.slice();
  newArray.splice(to < 0 ? newArray.length + to : to, 0, newArray.splice(from, 1)[0]);
  return newArray;
  \<close>
  The position of the insertion is computed first, with the length before the removal;
  the removal follows, and the insertion clamps its position to the shortened array.
  When the removal finds no element (\<open>from\<close> at or past the end, or an empty array),
  \<^verbatim>\<open>undefined\<close> is inserted: the result is \<open>None\<close>.
\<close>

definition arrayMove :: "'a list \<Rightarrow> int \<Rightarrow> int \<Rightarrow> 'a list option" where
  "arrayMove array from to =
     (let p = (if to < 0 then int (length array) + to else to);
          i = relative_index from (length array)
      in if i < length array
         then (let newArray = take i array @ drop (Suc i) array;
                   j = relative_index p (length newArray)
               in Some (take j newArray @ [array ! i] @ drop j newArray))
         else None)"

subsection \<open>The pieces of the handlers\<close>

text \<open>
  \<^verbatim>\<open>Object.keys(articleLists).find((listId) => articleLists[listId].some((a) => a.id === i))\<close>,
  which the handlers use for the active and for the hovered identifier.
\<close>

definition listContaining :: "ArticleListsCache \<Rightarrow> string \<Rightarrow> string option" where
  "listContaining ls i =
     List.find
       (\<lambda>listId. case map_of ls listId of
                    None \<Rightarrow> False
                  | Some as \<Rightarrow> list_ex (\<lambda>a. id' a = i) as)
       (map fst ls)"

text \<open>The target of an over event: the identifier itself for an empty container.\<close>

definition targetListOf :: "ArticleListsCache \<Rightarrow> Over \<Rightarrow> string option" where
  "targetListOf ls over =
     (if \<not> over_data over then Some (over_id over) else listContaining ls (over_id over))"

text \<open>The test for a move into a topic or domain group that the article does not match.\<close>

definition groupMismatch :: "env \<Rightarrow> Article \<Rightarrow> string \<Rightarrow> bool" where
  "groupMismatch e article targetList =
     ((endsWith targetList ''_'' \<and> topic_id article \<noteq> Some targetList) \<or>
      (includes' targetList ''.'' \<and> getDomain e (url article) \<noteq> Some targetList))"

text \<open>
  The two assignments that move the article in the cache: the source list, when there is
  one, loses every article with the identifier; the target list gets the article between
  \<^verbatim>\<open>slice(0, targetIndex)\<close> and \<^verbatim>\<open>slice(targetIndex)\<close>.
\<close>

definition removeFromList :: "ArticleListsCache \<Rightarrow> string \<Rightarrow> Article \<Rightarrow> error + ArticleListsCache" where
  "removeFromList ls sourceList article =
     (case map_of ls sourceList of
        None \<Rightarrow> Inl TypeError
      | Some as \<Rightarrow>
          Inr (AList.update sourceList (filter (\<lambda>a. id' a \<noteq> id' article) as) ls))"

definition insertIntoList :: "ArticleListsCache \<Rightarrow> string \<Rightarrow> int \<Rightarrow> Article \<Rightarrow> error + ArticleListsCache" where
  "insertIntoList ls targetList targetIndex article =
     (case map_of ls targetList of
        None \<Rightarrow> Inl TypeError
      | Some as \<Rightarrow>
          Inr (AList.update targetList
                 (slice as 0 targetIndex @ [article] @ slice_from as targetIndex) ls))"

definition moveBetweenLists ::
  "ArticleListsCache \<Rightarrow> Article \<Rightarrow> string option \<Rightarrow> string \<Rightarrow> int \<Rightarrow> error + ArticleListsCache" where
  "moveBetweenLists ls article sourceList targetList targetIndex =
     (case truthy sourceList of
        None \<Rightarrow> insertIntoList ls targetList targetIndex article
      | Some s \<Rightarrow>
          (case removeFromList ls s article of
             Inl err \<Rightarrow> Inl err
           | Inr ls1 \<Rightarrow> insertIntoList ls1 targetList targetIndex article))"

text \<open>The sort order that a reorder within a list modifies; \<open>None\<close> is the last branch.\<close>

definition sortKey :: "string \<Rightarrow> ArticleSortPosition option" where
  "sortKey listId =
     (if listId = ''list'' then Some recency_sort_position
      else if listId = ''queue'' then Some queue_sort_position
      else if listId = ''favorites'' then Some favorites_sort_position
      else if endsWith listId ''_'' then Some topic_sort_position
      else if includes' listId ''.'' then Some domain_sort_position
      else None)"

definition newIndexShifted :: "int \<Rightarrow> int \<Rightarrow> int" where
  "newIndexShifted oldIndex newIndex = (if oldIndex < newIndex then newIndex + 1 else newIndex)"

text \<open>\<^verbatim>\<open>a?.id || null\<close>: no neighbour, or one whose identifier is the empty string.\<close>

definition idOrNull :: "Article option \<Rightarrow> string option" where
  "idOrNull a = (case a of None \<Rightarrow> None | Some x \<Rightarrow> if id' x = [] then None else Some (id' x))"

text \<open>A call through \<^verbatim>\<open>rep?.mutate\<close>: nothing happens without a client.\<close>

definition mutate :: "env \<Rightarrow> effect \<Rightarrow> effect list" where
  "mutate e c = (if rep e then [c] else [])"

subsection \<open>The handlers\<close>

definition handleDragStart :: "world \<Rightarrow> Active \<Rightarrow> world" where
  "handleDragStart w active =
     (case articleLists w of
        None \<Rightarrow> w
      | Some ls \<Rightarrow>
          if \<not> active_data active then w
          else
            (let sourceList = listContaining ls (active_id active);
                 w1 = w\<lparr>activeListId := truthy sourceList\<rparr>
             in case truthy sourceList of
                  None \<Rightarrow> w1
                | Some s \<Rightarrow>
                    (case map_of ls s of
                       None \<Rightarrow> w1
                     | Some as \<Rightarrow>
                         w1\<lparr>activeArticle := List.find (\<lambda>a. id' a = active_id active) as\<rparr>)))"

text \<open>
  The callback of \<^verbatim>\<open>.then\<close>, run on the cache as it is when the promise resolves.
\<close>

definition runThen :: "ArticleListsCache \<Rightarrow> thenCallback \<Rightarrow> error + effect" where
  "runThen ls cb =
     (case map_of ls (cb_targetList cb) of
        None \<Rightarrow> Inl TypeError
      | Some as \<Rightarrow>
          Inr (MoveArticlePosition (cb_articleId cb)
                 (map_option id' (js_index as (cb_targetIndex cb)))
                 (map_option id' (js_index as (cb_targetIndex cb + 1)))
                 queue_sort_position))"

definition handleDragOver :: "env \<Rightarrow> world \<Rightarrow> Active \<Rightarrow> Over option \<Rightarrow> error + world" where
  "handleDragOver e w active over =
     (case articleLists w of
        None \<Rightarrow> Inr w
      | Some ls \<Rightarrow>
     (case over of
        None \<Rightarrow> Inr w
      | Some ov \<Rightarrow>
     (case activeArticle w of
        None \<Rightarrow> Inr w
      | Some art \<Rightarrow>
          (let sourceList = listContaining ls (active_id active)
           in case truthy (targetListOf ls ov) of
                None \<Rightarrow> Inr w
              | Some targetList \<Rightarrow>
                  if sourceList = Some targetList then Inr w
                  else if sourceList \<noteq> Some ''queue'' \<and> targetList \<noteq> ''queue'' then Inr w
                  else if groupMismatch e art targetList then
                    (case truthy sourceList of
                       None \<Rightarrow> Inr w
                     | Some s \<Rightarrow>
                         (case removeFromList ls s art of
                            Inl err \<Rightarrow> Inl err
                          | Inr ls1 \<Rightarrow> Inr (w\<lparr>articleLists := Some ls1, activeListId := None\<rparr>)))
                  else
                    (case map_of ls targetList of
                       None \<Rightarrow> Inl TypeError
                     | Some as \<Rightarrow>
                         (let targetIndex = findIndex (\<lambda>a. id' a = over_id ov) as
                          in case moveBetweenLists ls art sourceList targetList targetIndex of
                               Inl err \<Rightarrow> Inl err
                             | Inr ls2 \<Rightarrow>
                                 Inr (w\<lparr>articleLists := Some ls2,
                                        activeListId := Some targetList,
                                        trace := trace w
                                          @ mutate e (UpdateArticle (id' art) (targetList = ''queue'')
                                                        (Some (now e)))
                                          @ (if targetList = ''queue''
                                             then [ReportEvent ''addArticleToQueue''] else []),
                                        pending := pending w
                                          @ (if rep e
                                             then [\<lparr>cb_targetList = targetList,
                                                    cb_targetIndex = targetIndex,
                                                    cb_articleId = id' art\<rparr>]
                                             else [])\<rparr>)))))))"

text \<open>
  The promise of the oldest waiting \<^verbatim>\<open>updateArticle\<close> resolves: its callback runs on the
  cache of that moment and calls \<^verbatim>\<open>moveArticlePosition\<close>.
\<close>

definition resolveThen :: "world \<Rightarrow> error + world" where
  "resolveThen w =
     (case pending w of
        [] \<Rightarrow> Inr w
      | cb # cbs \<Rightarrow>
          (case articleLists w of
             None \<Rightarrow> Inl TypeError
           | Some ls \<Rightarrow>
               (case runThen ls cb of
                  Inl err \<Rightarrow> Inl err
                | Inr c \<Rightarrow> Inr (w\<lparr>trace := trace w @ [c], pending := cbs\<rparr>))))"

text \<open>
  \<^verbatim>\<open>handleDragEnd\<close>. When the recorded list is empty, \<^verbatim>\<open>arrayMove\<close> puts
  \<^verbatim>\<open>undefined\<close> into it and the handler goes on with a list that is no array of
  articles: the model stops there with \<open>UndefinedElement\<close>. A list that holds the
  dragged article is not empty.
\<close>

definition handleDragEnd :: "env \<Rightarrow> world \<Rightarrow> Active \<Rightarrow> Over option \<Rightarrow> error + world" where
  "handleDragEnd e w active over =
     (case over of
        None \<Rightarrow> Inr w
      | Some ov \<Rightarrow>
     (case articleLists w of
        None \<Rightarrow> Inr w
      | Some ls \<Rightarrow>
     (case truthy (activeListId w) of
        None \<Rightarrow>
          Inr (w\<lparr>trace := trace w @ mutate e (UpdateArticle (active_id active) False None)\<rparr>)
      | Some l \<Rightarrow>
          if active_id active \<noteq> over_id ov then
            (case map_of ls l of
               None \<Rightarrow> Inl TypeError
             | Some as \<Rightarrow>
                 (let oldIndex = findIndex (\<lambda>a. id' a = active_id active) as;
                      newIndex = findIndex (\<lambda>a. id' a = over_id ov) as
                  in case sortKey l of
                       None \<Rightarrow>
                         Inr (w\<lparr>trace := trace w
                                  @ [ConsoleError
                                       (''Could not determine sort position to reorder for list '' @ l)]\<rparr>)
                     | Some k \<Rightarrow>
                         (let shifted = newIndexShifted oldIndex newIndex;
                              beforeNewArticle = js_index as (shifted - 1);
                              afterNewArticle = js_index as shifted
                          in case arrayMove as oldIndex newIndex of
                               None \<Rightarrow> Inl UndefinedElement
                             | Some moved \<Rightarrow>
                                 Inr (w\<lparr>articleLists := Some (AList.update l moved ls),
                                        activeArticle := None,
                                        activeListId := None,
                                        trace := trace w
                                          @ mutate e (MoveArticlePosition (active_id active)
                                                        (idOrNull beforeNewArticle)
                                                        (idOrNull afterNewArticle) k)
                                          @ [SetArticleLists (AList.update l moved ls),
                                             ReportEvent ''reorderArticles'']\<rparr>))))
          else
            Inr (w\<lparr>activeArticle := None,
                   activeListId := None,
                   trace := trace w @ [ReportEvent ''reorderArticles'']\<rparr>))))"

subsection \<open>Example values\<close>

text \<open>
  Concrete articles, events and components on which the theorems below are instantiated.
  \<open>idle ls\<close> is the component before any drag, with the cache \<open>ls\<close>.
\<close>

definition plain :: "string \<Rightarrow> Article" where
  "plain i = \<lparr>id' = i, topic_id = None, url = ''https://example.com/'' @ i\<rparr>"

definition sports :: "string \<Rightarrow> Article" where
  "sports i = \<lparr>id' = i, topic_id = Some ''sports_'', url = ''https://example.com/'' @ i\<rparr>"

definition env0 :: env where
  "env0 = \<lparr>rep = True, now = 1700000000000, getDomain = (\<lambda>u. Some ''example.com'')\<rparr>"

definition idle :: "ArticleListsCache \<Rightarrow> world" where
  "idle ls =
     \<lparr>articleLists = Some ls, activeListId = None, activeArticle = None,
      trace = [], pending = []\<rparr>"

definition dragging :: "string \<Rightarrow> Active" where
  "dragging i = \<lparr>active_id = i, active_data = True\<rparr>"

definition onItem :: "string \<Rightarrow> Over" where
  "onItem i = \<lparr>over_id = i, over_data = True\<rparr>"

definition onContainer :: "string \<Rightarrow> Over" where
  "onContainer l = \<lparr>over_id = l, over_data = False\<rparr>"

text \<open>Two caches: one to drag into the queue, one to drag out of it.\<close>

definition listAndQueue :: ArticleListsCache where
  "listAndQueue = [(''list'', [plain ''a1'']), (''queue'', [plain ''q1'', plain ''q2'', plain ''q3''])]"

definition queueAndFavorites :: ArticleListsCache where
  "queueAndFavorites = [(''queue'', [plain ''a1'']), (''favorites'', [])]"

section \<open>Properties\<close>

subsection \<open>Strings, options and lookups\<close>

lemma endsWith_char: "endsWith s [c] \<longleftrightarrow> s \<noteq> [] \<and> last s = c"
proof (cases s rule: rev_cases)
  case Nil
  then show ?thesis by (simp add: endsWith_def)
next
  case (snoc ys y)
  then show ?thesis by (auto simp add: endsWith_def)
qed

lemma includes_char: "includes' s [c] \<longleftrightarrow> c \<in> set s"
proof -
  have "list_ex (\<lambda>i. take (Suc 0) (drop i s) = [c]) [0 ..< length s] \<longleftrightarrow> c \<in> set s"
  proof
    assume "list_ex (\<lambda>i. take (Suc 0) (drop i s) = [c]) [0 ..< length s]"
    then obtain i where i: "i < length s" "take (Suc 0) (drop i s) = [c]"
      by (auto simp add: list_ex_iff)
    then have "s ! i = c"
      by (metis Cons_nth_drop_Suc list.inject take_Suc_Cons)
    with i show "c \<in> set s" by auto
  next
    assume "c \<in> set s"
    then obtain i where i: "i < length s" "s ! i = c"
      by (auto simp add: in_set_conv_nth)
    then have "take (Suc 0) (drop i s) = [c]"
      by (simp add: Cons_nth_drop_Suc [symmetric])
    with i show "list_ex (\<lambda>i. take (Suc 0) (drop i s) = [c]) [0 ..< length s]"
      by (auto simp add: list_ex_iff)
  qed
  moreover have "s \<noteq> [] \<Longrightarrow> Suc (length s - Suc 0) = length s"
    by (cases s) auto
  ultimately show ?thesis
    by (cases "s = []") (auto simp add: includes'_def Suc_le_eq)
qed

lemma truthy_Some: "truthy s = Some t \<longleftrightarrow> s = Some t \<and> t \<noteq> []"
  by (auto simp add: truthy_def split: option.splits)

lemma truthy_None: "truthy s = None \<longleftrightarrow> s = None \<or> s = Some []"
  by (auto simp add: truthy_def split: option.splits)

lemma listContaining_Some:
  "listContaining ls i = Some k \<Longrightarrow> \<exists>as. map_of ls k = Some as \<and> list_ex (\<lambda>a. id' a = i) as"
  by (auto simp add: listContaining_def find_Some_iff split: option.splits)

lemma groupMismatch_not_queue: "groupMismatch e art t \<Longrightarrow> t \<noteq> ''queue''"
  by (auto simp add: groupMismatch_def endsWith_char includes_char)

lemmas example_defs =
  plain_def sports_def env0_def idle_def dragging_def onItem_def onContainer_def

lemmas eval_defs =
  example_defs listAndQueue_def queueAndFavorites_def
  handleDragStart_def handleDragOver_def handleDragEnd_def
  listContaining_def targetListOf_def truthy_def groupMismatch_def endsWith_char includes_char
  moveBetweenLists_def removeFromList_def insertIntoList_def
  slice_def slice_from_def relative_index_def js_index_def arrayMove_def
  sortKey_def newIndexShifted_def idOrNull_def mutate_def Let_def

subsection \<open>The rule of the reading queue\<close>

text \<open>
  C6. An over event moves an article between two lists only if one of them is the reading
  queue. Whenever neither the list that holds the active identifier nor the resolved
  target is \<^verbatim>\<open>"queue"\<close>, the handler returns without an effect: the cache, the
  state cells, the trace and the waiting callbacks are all as before, and nothing is
  thrown.
\<close>

theorem only_queue_moves:
  assumes "articleLists w = Some ls"
    and "listContaining ls (active_id active) \<noteq> Some ''queue''"
    and "targetListOf ls ov \<noteq> Some ''queue''"
  shows "handleDragOver e w active (Some ov) = Inr w"
  using assms
  by (auto simp add: handleDragOver_def Let_def truthy_Some split: option.splits)

theorem only_queue_moves_witness:
  "handleDragOver env0
     (handleDragStart (idle [(''list'', [plain ''a1'']), (''favorites'', [plain ''f1''])])
        (dragging ''a1''))
     (dragging ''a1'') (Some (onItem ''f1''))
   = Inr (handleDragStart (idle [(''list'', [plain ''a1'']), (''favorites'', [plain ''f1''])])
        (dragging ''a1''))
   \<and> activeArticle (handleDragStart (idle [(''list'', [plain ''a1'']), (''favorites'', [plain ''f1''])])
        (dragging ''a1'')) = Some (plain ''a1'')
   \<and> targetListOf [(''list'', [plain ''a1'']), (''favorites'', [plain ''f1''])] (onItem ''f1'')
        = Some ''favorites''"
  using only_queue_moves
    [of "handleDragStart (idle [(''list'', [plain ''a1'']), (''favorites'', [plain ''f1''])])
           (dragging ''a1'')"
        "[(''list'', [plain ''a1'']), (''favorites'', [plain ''f1''])]"
        "dragging ''a1''" "onItem ''f1''" env0]
  by (simp add: example_defs handleDragStart_def listContaining_def targetListOf_def truthy_def)

subsection \<open>The sort order of a list\<close>

text \<open>
  C7. The sort order that a reorder modifies is read off the list identifier:
  \<^verbatim>\<open>"list"\<close> gives the recency position, \<^verbatim>\<open>"queue"\<close> the queue position,
  \<^verbatim>\<open>"favorites"\<close> the favorites position, an identifier that ends with \<^verbatim>\<open>"_"\<close> the
  topic position, and an identifier that contains \<^verbatim>\<open>"."\<close> (and does not end with
  \<^verbatim>\<open>"_"\<close>, the earlier test) the domain position. For every other identifier there is no
  sort order, and an end event that would reorder such a list only logs the error: no
  \<^verbatim>\<open>moveArticlePosition\<close> is called, the cache and both state cells are as before, and
  the handler returns normally.
\<close>

theorem sort_key_resolution:
  "sortKey ''list'' = Some recency_sort_position \<and>
   sortKey ''queue'' = Some queue_sort_position \<and>
   sortKey ''favorites'' = Some favorites_sort_position \<and>
   (endsWith l ''_'' \<longrightarrow> sortKey l = Some topic_sort_position) \<and>
   (includes' l ''.'' \<and> \<not> endsWith l ''_'' \<longrightarrow> sortKey l = Some domain_sort_position) \<and>
   (l \<noteq> ''list'' \<and> l \<noteq> ''queue'' \<and> l \<noteq> ''favorites'' \<and>
    \<not> endsWith l ''_'' \<and> \<not> includes' l ''.'' \<longrightarrow>
      sortKey l = None \<and>
      (\<forall>e w active ov ls as.
         articleLists w = Some ls \<and> activeListId w = Some l \<and> l \<noteq> [] \<and>
         map_of ls l = Some as \<and> active_id active \<noteq> over_id ov \<longrightarrow>
         handleDragEnd e w active (Some ov) =
           Inr (w\<lparr>trace := trace w
                  @ [ConsoleError (''Could not determine sort position to reorder for list '' @ l)]\<rparr>)))"
  by (auto simp add: sortKey_def endsWith_char includes_char handleDragEnd_def Let_def truthy_def)

theorem sort_key_resolution_witness:
  "sortKey ''sports_'' = Some topic_sort_position \<and>
   sortKey ''example.com'' = Some domain_sort_position \<and>
   sortKey ''misc'' = None \<and>
   handleDragEnd env0
     (handleDragStart (idle [(''misc'', [plain ''a1'', plain ''a2''])]) (dragging ''a1''))
     (dragging ''a1'') (Some (onItem ''a2''))
   = Inr \<lparr>articleLists = Some [(''misc'', [plain ''a1'', plain ''a2''])],
          activeListId = Some ''misc'',
          activeArticle = Some (plain ''a1''),
          trace = [ConsoleError ''Could not determine sort position to reorder for list misc''],
          pending = []\<rparr>"
proof -
  let ?w = "handleDragStart (idle [(''misc'', [plain ''a1'', plain ''a2''])]) (dragging ''a1'')"
  have w: "?w = \<lparr>articleLists = Some [(''misc'', [plain ''a1'', plain ''a2''])],
                  activeListId = Some ''misc'',
                  activeArticle = Some (plain ''a1''),
                  trace = [], pending = []\<rparr>"
    by (simp add: example_defs handleDragStart_def listContaining_def truthy_def)
  have topic: "sortKey ''sports_'' = Some topic_sort_position"
    using sort_key_resolution [of "''sports_''"] by (simp add: endsWith_char)
  have domain: "sortKey ''example.com'' = Some domain_sort_position"
    using sort_key_resolution [of "''example.com''"] by (simp add: endsWith_char includes_char)
  have other: "sortKey ''misc'' = None \<and>
      (\<forall>e w active ov ls as.
         articleLists w = Some ls \<and> activeListId w = Some ''misc'' \<and> ''misc'' \<noteq> [] \<and>
         map_of ls ''misc'' = Some as \<and> active_id active \<noteq> over_id ov \<longrightarrow>
         handleDragEnd e w active (Some ov) =
           Inr (w\<lparr>trace := trace w
                  @ [ConsoleError (''Could not determine sort position to reorder for list '' @ ''misc'')]\<rparr>))"
    using sort_key_resolution [of "''misc''"] by (simp add: endsWith_char includes_char)
  then have "handleDragEnd env0 ?w (dragging ''a1'') (Some (onItem ''a2'')) =
           Inr (?w\<lparr>trace := trace ?w
                  @ [ConsoleError (''Could not determine sort position to reorder for list '' @ ''misc'')]\<rparr>)"
    by (simp add: w) (simp add: example_defs)
  with topic domain other show ?thesis by (simp add: w)
qed

subsection \<open>A move into a group that the article does not match\<close>

text \<open>
  C5. When the over handler passes the queue rule and then finds that the target is a topic
  list (ends with \<^verbatim>\<open>"_"\<close>) other than the article's topic, or a domain list (contains
  \<^verbatim>\<open>"."\<close>) other than the article's domain, the source list is necessarily the reading
  queue. The queue loses the articles with the identifier of the active article, every
  other list, the target included, is as before, the keys of the cache are as before, the
  recorded list is cleared, and no command and no event is issued.
\<close>

theorem mismatch_removes_from_source:
  assumes "articleLists w = Some ls" and "activeArticle w = Some art"
    and "truthy (targetListOf ls ov) = Some t"
    and "listContaining ls (active_id active) \<noteq> Some t"
    and "listContaining ls (active_id active) = Some ''queue'' \<or> t = ''queue''"
    and "groupMismatch e art t"
  shows "\<exists>q. listContaining ls (active_id active) = Some ''queue'' \<and>
           map_of ls ''queue'' = Some q \<and>
           handleDragOver e w active (Some ov)
             = Inr (w\<lparr>articleLists :=
                        Some (AList.update ''queue'' (filter (\<lambda>a. id' a \<noteq> id' art) q) ls),
                      activeListId := None\<rparr>) \<and>
           map_of (AList.update ''queue'' (filter (\<lambda>a. id' a \<noteq> id' art) q) ls) ''queue''
             = Some (filter (\<lambda>a. id' a \<noteq> id' art) q) \<and>
           (\<forall>k. k \<noteq> ''queue'' \<longrightarrow>
              map_of (AList.update ''queue'' (filter (\<lambda>a. id' a \<noteq> id' art) q) ls) k = map_of ls k) \<and>
           map_of (AList.update ''queue'' (filter (\<lambda>a. id' a \<noteq> id' art) q) ls) t = map_of ls t \<and>
           map fst (AList.update ''queue'' (filter (\<lambda>a. id' a \<noteq> id' art) q) ls) = map fst ls"
proof -
  from assms(6) have t: "t \<noteq> ''queue''" by (rule groupMismatch_not_queue)
  with assms(5) have src: "listContaining ls (active_id active) = Some ''queue''" by simp
  then obtain q where q: "map_of ls ''queue'' = Some q"
    by (auto dest: listContaining_Some)
  let ?ls' = "AList.update ''queue'' (filter (\<lambda>a. id' a \<noteq> id' art) q) ls"
  have "handleDragOver e w active (Some ov)
          = Inr (w\<lparr>articleLists := Some ?ls', activeListId := None\<rparr>)"
    using assms(1,2,3,6) src q t
    by (simp add: handleDragOver_def Let_def truthy_def removeFromList_def)
  moreover have "map_of ?ls' ''queue'' = Some (filter (\<lambda>a. id' a \<noteq> id' art) q)"
    by (simp add: update_conv')
  moreover have "\<forall>k. k \<noteq> ''queue'' \<longrightarrow> map_of ?ls' k = map_of ls k"
    by (simp add: update_conv')
  moreover have "map_of ?ls' t = map_of ls t"
    using t by (simp add: update_conv')
  moreover have "map fst ?ls' = map fst ls"
    using q by (auto simp add: update_keys dest: map_of_SomeD intro: rev_image_eqI)
  ultimately show ?thesis using q src by blast
qed

theorem mismatch_removes_from_source_witness:
  "groupMismatch env0 (sports ''x'') ''news_'' \<and>
   handleDragOver env0
     (handleDragStart (idle [(''queue'', [plain ''q1'', sports ''x'']), (''news_'', [plain ''n1''])])
        (dragging ''x''))
     (dragging ''x'') (Some (onItem ''n1''))
   = Inr \<lparr>articleLists = Some [(''queue'', [plain ''q1'']), (''news_'', [plain ''n1''])],
          activeListId = None,
          activeArticle = Some (sports ''x''),
          trace = [], pending = []\<rparr>"
proof -
  let ?ls = "[(''queue'', [plain ''q1'', sports ''x'']), (''news_'', [plain ''n1''])]"
  let ?w = "handleDragStart (idle ?ls) (dragging ''x'')"
  have w: "?w = \<lparr>articleLists = Some ?ls, activeListId = Some ''queue'',
                  activeArticle = Some (sports ''x''), trace = [], pending = []\<rparr>"
    by (simp add: example_defs handleDragStart_def listContaining_def truthy_def)
  have m: "groupMismatch env0 (sports ''x'') ''news_''"
    by (simp add: groupMismatch_def endsWith_char example_defs)
  have "\<exists>q. map_of ?ls ''queue'' = Some q \<and>
           handleDragOver env0 ?w (dragging ''x'') (Some (onItem ''n1''))
             = Inr (?w\<lparr>articleLists :=
                        Some (AList.update ''queue'' (filter (\<lambda>a. id' a \<noteq> id' (sports ''x'')) q) ?ls),
                      activeListId := None\<rparr>)"
    using mismatch_removes_from_source
      [of ?w ?ls "sports ''x''" "onItem ''n1''" "''news_''" "dragging ''x''" env0] m
    by (simp add: w) (simp add: example_defs listContaining_def targetListOf_def truthy_def)
  then show ?thesis using m by (simp add: w) (simp add: example_defs)
qed

subsection \<open>A reorder within a list\<close>

lemma findIndex_bounds: "- 1 \<le> findIndex P xs \<and> findIndex P xs < int (length xs)"
  by (induction xs) (auto simp add: Let_def)

lemma arrayMove_findIndex:
  assumes "as \<noteq> []"
  shows "\<exists>moved. arrayMove as (findIndex P as) newIndex = Some moved"
proof -
  have "relative_index (findIndex P as) (length as) < length as"
    using assms findIndex_bounds [of P as]
    by (cases as) (auto simp add: relative_index_def)
  then show ?thesis by (simp add: arrayMove_def Let_def)
qed

text \<open>
  C4. An end event over another identifier, with a recorded list whose sort order is known:
  with \<open>oldIndex\<close> and \<open>newIndex\<close> the positions of the active and of the hovered
  identifier in the list as it is before the move, the boundary index is \<open>newIndex + 1\<close>
  when \<open>oldIndex < newIndex\<close> and \<open>newIndex\<close> otherwise; the command names the
  articles of that list at the boundary index minus one (before) and at the boundary
  index (after); the cache then holds the result of \<^verbatim>\<open>arrayMove\<close> on the same list.
  Moving index 0 to index 2 in \<open>[A, B, C, D]\<close> gives \<open>[B, C, A, D]\<close> with the
  neighbours \<open>C\<close> and \<open>D\<close>.
\<close>

theorem reorder_within_list:
  assumes "articleLists w = Some ls" and "truthy (activeListId w) = Some l"
    and "map_of ls l = Some as" and "as \<noteq> []"
    and "active_id active \<noteq> over_id ov"
    and "sortKey l = Some k"
    and "oldIndex = findIndex (\<lambda>a. id' a = active_id active) as"
    and "newIndex = findIndex (\<lambda>a. id' a = over_id ov) as"
  shows "newIndexShifted oldIndex newIndex
           = (if oldIndex < newIndex then newIndex + 1 else newIndex) \<and>
         (\<exists>moved. arrayMove as oldIndex newIndex = Some moved \<and>
            handleDragEnd e w active (Some ov)
              = Inr (w\<lparr>articleLists := Some (AList.update l moved ls),
                      activeArticle := None,
                      activeListId := None,
                      trace := trace w
                        @ mutate e (MoveArticlePosition (active_id active)
                            (idOrNull (js_index as (newIndexShifted oldIndex newIndex - 1)))
                            (idOrNull (js_index as (newIndexShifted oldIndex newIndex))) k)
                        @ [SetArticleLists (AList.update l moved ls),
                           ReportEvent ''reorderArticles'']\<rparr>)) \<and>
         arrayMove [A, B, C, D :: Article] 0 2 = Some [B, C, A, D] \<and>
         js_index [A, B, C, D] (newIndexShifted 0 2 - 1) = Some C \<and>
         js_index [A, B, C, D] (newIndexShifted 0 2) = Some D"
proof -
  obtain moved where moved: "arrayMove as oldIndex newIndex = Some moved"
    using arrayMove_findIndex [OF assms(4)] assms(7) by blast
  have "handleDragEnd e w active (Some ov)
              = Inr (w\<lparr>articleLists := Some (AList.update l moved ls),
                      activeArticle := None,
                      activeListId := None,
                      trace := trace w
                        @ mutate e (MoveArticlePosition (active_id active)
                            (idOrNull (js_index as (newIndexShifted oldIndex newIndex - 1)))
                            (idOrNull (js_index as (newIndexShifted oldIndex newIndex))) k)
                        @ [SetArticleLists (AList.update l moved ls),
                           ReportEvent ''reorderArticles'']\<rparr>)"
    using assms moved by (simp add: handleDragEnd_def Let_def)
  with moved show ?thesis
    by (simp add: newIndexShifted_def arrayMove_def relative_index_def js_index_def)
qed

theorem reorder_within_list_witness:
  "handleDragEnd env0
     (handleDragStart (idle [(''list'', [plain ''A'', plain ''B'', plain ''C'', plain ''D''])])
        (dragging ''A''))
     (dragging ''A'') (Some (onItem ''C''))
   = Inr \<lparr>articleLists = Some [(''list'', [plain ''B'', plain ''C'', plain ''A'', plain ''D''])],
          activeListId = None,
          activeArticle = None,
          trace = [MoveArticlePosition ''A'' (Some ''C'') (Some ''D'') recency_sort_position,
                   SetArticleLists [(''list'', [plain ''B'', plain ''C'', plain ''A'', plain ''D''])],
                   ReportEvent ''reorderArticles''],
          pending = []\<rparr>"
proof -
  let ?as = "[plain ''A'', plain ''B'', plain ''C'', plain ''D'']"
  let ?w = "handleDragStart (idle [(''list'', ?as)]) (dragging ''A'')"
  have w: "?w = \<lparr>articleLists = Some [(''list'', ?as)], activeListId = Some ''list'',
                  activeArticle = Some (plain ''A''), trace = [], pending = []\<rparr>"
    by (simp add: example_defs handleDragStart_def listContaining_def truthy_def)
  have old: "findIndex (\<lambda>a. id' a = active_id (dragging ''A'')) ?as = 0"
    by (simp add: example_defs)
  have new: "findIndex (\<lambda>a. id' a = over_id (onItem ''C'')) ?as = 2"
    by (simp add: example_defs)
  have moved: "arrayMove ?as 0 2 = Some [plain ''B'', plain ''C'', plain ''A'', plain ''D'']"
    by (simp add: arrayMove_def relative_index_def)
  have "handleDragEnd env0 ?w (dragging ''A'') (Some (onItem ''C''))
           = Inr (?w\<lparr>articleLists := Some (AList.update ''list''
                       [plain ''B'', plain ''C'', plain ''A'', plain ''D''] [(''list'', ?as)]),
                   activeArticle := None,
                   activeListId := None,
                   trace := trace ?w
                     @ mutate env0 (MoveArticlePosition (active_id (dragging ''A''))
                         (idOrNull (js_index ?as (newIndexShifted 0 2 - 1)))
                         (idOrNull (js_index ?as (newIndexShifted 0 2))) recency_sort_position)
                     @ [SetArticleLists (AList.update ''list''
                          [plain ''B'', plain ''C'', plain ''A'', plain ''D''] [(''list'', ?as)]),
                        ReportEvent ''reorderArticles'']\<rparr>)"
    using reorder_within_list
      [of ?w "[(''list'', ?as)]" "''list''" ?as "dragging ''A''" "onItem ''C''"
          recency_sort_position 0 2 env0
          "plain ''A''" "plain ''B''" "plain ''C''" "plain ''D''"]
      old new moved
    by (simp add: w) (simp add: example_defs truthy_def sortKey_def)
  then show ?thesis
    by (simp add: w) (simp add: example_defs newIndexShifted_def js_index_def idOrNull_def mutate_def)
qed

subsection \<open>An accepted move between two lists\<close>

lemma update_keys_present:
  "map_of al k = Some v \<Longrightarrow> map fst (AList.update k v' al) = map fst al"
  by (auto simp add: update_keys dest: map_of_SomeD intro: rev_image_eqI)

lemma moveBetweenLists_Inr:
  assumes "map_of ls t = Some ts"
    and "src = listContaining ls i"
    and "src \<noteq> Some t"
  shows "\<exists>ls2. moveBetweenLists ls art src t idx = Inr ls2 \<and>
           map_of ls2 t = Some (slice ts 0 idx @ [art] @ slice_from ts idx) \<and>
           map fst ls2 = map fst ls"
proof (cases "truthy src")
  case None
  have "map fst (AList.update t (slice ts 0 idx @ [art] @ slice_from ts idx) ls) = map fst ls"
    using assms(1) by (rule update_keys_present)
  with None assms(1) show ?thesis
    by (simp add: moveBetweenLists_def insertIntoList_def update_conv')
next
  case (Some s)
  then have s: "src = Some s" by (simp add: truthy_Some)
  with assms(2) obtain sl where sl: "map_of ls s = Some sl"
    by (metis listContaining_Some)
  from s assms(3) have ne: "s \<noteq> t" by simp
  let ?ls1 = "AList.update s (filter (\<lambda>a. id' a \<noteq> id' art) sl) ls"
  have k1: "map fst ?ls1 = map fst ls"
    using sl by (rule update_keys_present)
  have t1: "map_of ?ls1 t = Some ts"
    using ne assms(1) by (simp add: update_conv')
  have "map fst (AList.update t (slice ts 0 idx @ [art] @ slice_from ts idx) ?ls1) = map fst ?ls1"
    using t1 by (rule update_keys_present)
  with Some sl t1 k1 show ?thesis
    by (simp add: moveBetweenLists_def removeFromList_def insertIntoList_def update_conv')
qed

lemma accepted_move:
  assumes "articleLists w = Some ls" and "activeArticle w = Some art"
    and "truthy (targetListOf ls ov) = Some t"
    and "listContaining ls (active_id active) \<noteq> Some t"
    and "listContaining ls (active_id active) = Some ''queue'' \<or> t = ''queue''"
    and "\<not> groupMismatch e art t"
    and "map_of ls t = Some ts"
  shows "\<exists>ls2. moveBetweenLists ls art (listContaining ls (active_id active)) t
                 (findIndex (\<lambda>a. id' a = over_id ov) ts) = Inr ls2 \<and>
           map_of ls2 t = Some (slice ts 0 (findIndex (\<lambda>a. id' a = over_id ov) ts) @ [art]
                                 @ slice_from ts (findIndex (\<lambda>a. id' a = over_id ov) ts)) \<and>
           map fst ls2 = map fst ls \<and>
           handleDragOver e w active (Some ov)
             = Inr (w\<lparr>articleLists := Some ls2,
                     activeListId := Some t,
                     trace := trace w
                       @ mutate e (UpdateArticle (id' art) (t = ''queue'') (Some (now e)))
                       @ (if t = ''queue'' then [ReportEvent ''addArticleToQueue''] else []),
                     pending := pending w
                       @ (if rep e
                          then [\<lparr>cb_targetList = t,
                                 cb_targetIndex = findIndex (\<lambda>a. id' a = over_id ov) ts,
                                 cb_articleId = id' art\<rparr>]
                          else [])\<rparr>)"
proof -
  obtain ls2 where ls2:
    "moveBetweenLists ls art (listContaining ls (active_id active)) t
       (findIndex (\<lambda>a. id' a = over_id ov) ts) = Inr ls2"
    "map_of ls2 t = Some (slice ts 0 (findIndex (\<lambda>a. id' a = over_id ov) ts) @ [art]
                                 @ slice_from ts (findIndex (\<lambda>a. id' a = over_id ov) ts))"
    "map fst ls2 = map fst ls"
    using moveBetweenLists_Inr [OF assms(7) refl assms(4)] by blast
  from assms(5) have "\<not> (listContaining ls (active_id active) \<noteq> Some ''queue'' \<and> t \<noteq> ''queue'')"
    by blast
  with assms(1,2,3,4,6,7) ls2 show ?thesis
    by (auto simp add: handleDragOver_def Let_def)
qed

text \<open>
  C10. An over event that passes the queue rule and the group test, whatever the target
  list is: the only command the handler itself issues is \<^verbatim>\<open>updateArticle\<close> with the
  article's identifier, \<^verbatim>\<open>is_queued\<close> set to whether the target is the queue, and
  \<^verbatim>\<open>queue_sort_position\<close> set to the current time. \<^verbatim>\<open>moveArticlePosition\<close> is not
  called by the handler but by the callback it attaches to that promise; whatever cache
  the callback reads, the command it issues is for the same article and names
  \<^verbatim>\<open>queue_sort_position\<close>. With a client and no older callback waiting, resolving the
  promise after the handler does issue that command. Without a client neither command is
  issued.
\<close>

theorem cross_list_commands:
  assumes "articleLists w = Some ls" and "activeArticle w = Some art"
    and "truthy (targetListOf ls ov) = Some t"
    and "listContaining ls (active_id active) \<noteq> Some t"
    and "listContaining ls (active_id active) = Some ''queue'' \<or> t = ''queue''"
    and "\<not> groupMismatch e art t"
    and "map_of ls t = Some ts"
    and "cb = \<lparr>cb_targetList = t,
               cb_targetIndex = findIndex (\<lambda>a. id' a = over_id ov) ts,
               cb_articleId = id' art\<rparr>"
  shows "\<exists>ls2 w'.
           handleDragOver e w active (Some ov) = Inr w' \<and>
           w' = w\<lparr>articleLists := Some ls2,
                  activeListId := Some t,
                  trace := trace w
                    @ (if rep e
                       then [UpdateArticle (id' art) (t = ''queue'') (Some (now e))] else [])
                    @ (if t = ''queue'' then [ReportEvent ''addArticleToQueue''] else []),
                  pending := pending w @ (if rep e then [cb] else [])\<rparr> \<and>
           (\<forall>snapshot c. runThen snapshot cb = Inr c \<longrightarrow>
              (\<exists>b a. c = MoveArticlePosition (id' art) b a queue_sort_position)) \<and>
           (rep e \<and> pending w = [] \<longrightarrow>
              (\<exists>b a. resolveThen w'
                 = Inr (w'\<lparr>trace := trace w'
                            @ [MoveArticlePosition (id' art) b a queue_sort_position],
                          pending := []\<rparr>)))"
proof -
  obtain ls2 where ls2: "map_of ls2 t
        = Some (slice ts 0 (findIndex (\<lambda>a. id' a = over_id ov) ts) @ [art]
                 @ slice_from ts (findIndex (\<lambda>a. id' a = over_id ov) ts))"
    and h: "handleDragOver e w active (Some ov)
             = Inr (w\<lparr>articleLists := Some ls2,
                     activeListId := Some t,
                     trace := trace w
                       @ mutate e (UpdateArticle (id' art) (t = ''queue'') (Some (now e)))
                       @ (if t = ''queue'' then [ReportEvent ''addArticleToQueue''] else []),
                     pending := pending w
                       @ (if rep e
                          then [\<lparr>cb_targetList = t,
                                 cb_targetIndex = findIndex (\<lambda>a. id' a = over_id ov) ts,
                                 cb_articleId = id' art\<rparr>]
                          else [])\<rparr>)"
    using accepted_move [OF assms(1-7)] by blast
  let ?w' = "w\<lparr>articleLists := Some ls2,
                  activeListId := Some t,
                  trace := trace w
                    @ (if rep e
                       then [UpdateArticle (id' art) (t = ''queue'') (Some (now e))] else [])
                    @ (if t = ''queue'' then [ReportEvent ''addArticleToQueue''] else []),
                  pending := pending w @ (if rep e then [cb] else [])\<rparr>"
  have 1: "handleDragOver e w active (Some ov) = Inr ?w'"
    using h assms(8) by (simp add: mutate_def)
  have 2: "\<forall>snapshot c. runThen snapshot cb = Inr c \<longrightarrow>
              (\<exists>b a. c = MoveArticlePosition (id' art) b a queue_sort_position)"
    using assms(8) by (auto simp add: runThen_def split: option.splits)
  have 3: "rep e \<and> pending w = [] \<longrightarrow>
              (\<exists>b a. resolveThen ?w'
                 = Inr (?w'\<lparr>trace := trace ?w'
                            @ [MoveArticlePosition (id' art) b a queue_sort_position],
                          pending := []\<rparr>))"
    using ls2 assms(8) by (auto simp add: resolveThen_def runThen_def)
  from 1 2 3 show ?thesis by blast
qed

theorem cross_list_commands_witness:
  "\<exists>w'. handleDragOver env0 (handleDragStart (idle queueAndFavorites) (dragging ''a1''))
           (dragging ''a1'') (Some (onContainer ''favorites'')) = Inr w' \<and>
         trace w' = [UpdateArticle ''a1'' False (Some 1700000000000)] \<and>
         pending w' = [\<lparr>cb_targetList = ''favorites'', cb_targetIndex = - 1,
                         cb_articleId = ''a1''\<rparr>] \<and>
         (\<exists>b a. resolveThen w'
            = Inr (w'\<lparr>trace := trace w'
                       @ [MoveArticlePosition ''a1'' b a queue_sort_position],
                     pending := []\<rparr>))"
proof -
  let ?w = "handleDragStart (idle queueAndFavorites) (dragging ''a1'')"
  let ?cb = "\<lparr>cb_targetList = ''favorites'',
              cb_targetIndex = findIndex (\<lambda>a. id' a = over_id (onContainer ''favorites'')) ([] :: Article list),
              cb_articleId = id' (plain ''a1'')\<rparr>"
  have w: "?w = \<lparr>articleLists = Some queueAndFavorites, activeListId = Some ''queue'',
                  activeArticle = Some (plain ''a1''), trace = [], pending = []\<rparr>"
    by (simp add: eval_defs)
  have 1: "articleLists ?w = Some queueAndFavorites" by (simp add: w)
  have 2: "activeArticle ?w = Some (plain ''a1'')" by (simp add: w)
  have 3: "truthy (targetListOf queueAndFavorites (onContainer ''favorites'')) = Some ''favorites''"
    by (simp add: eval_defs)
  have 4: "listContaining queueAndFavorites (active_id (dragging ''a1'')) \<noteq> Some ''favorites''"
    by (simp add: eval_defs)
  have 5: "listContaining queueAndFavorites (active_id (dragging ''a1'')) = Some ''queue''
            \<or> ''favorites'' = ''queue''"
    by (simp add: eval_defs)
  have 6: "\<not> groupMismatch env0 (plain ''a1'') ''favorites''"
    by (simp add: eval_defs)
  have 7: "map_of queueAndFavorites ''favorites'' = Some []"
    by (simp add: eval_defs)
  from cross_list_commands [OF 1 2 3 4 5 6 7, of ?cb]
  obtain ls2 w' where
    "handleDragOver env0 ?w (dragging ''a1'') (Some (onContainer ''favorites'')) = Inr w'"
    "w' = ?w\<lparr>articleLists := Some ls2,
                 activeListId := Some ''favorites'',
                 trace := trace ?w
                   @ (if rep env0
                      then [UpdateArticle (id' (plain ''a1'')) (''favorites'' = ''queue'')
                              (Some (now env0))]
                      else [])
                   @ (if ''favorites'' = ''queue'' then [ReportEvent ''addArticleToQueue''] else []),
                 pending := pending ?w @ (if rep env0 then [?cb] else [])\<rparr>"
    "rep env0 \<and> pending ?w = [] \<longrightarrow>
       (\<exists>b a. resolveThen w'
          = Inr (w'\<lparr>trace := trace w'
                     @ [MoveArticlePosition (id' (plain ''a1'')) b a queue_sort_position],
                   pending := []\<rparr>))"
    by blast
  then show ?thesis
    by (simp add: w) (simp add: example_defs)
qed

lemma findIndex_found: "0 \<le> findIndex P xs \<Longrightarrow> P (xs ! nat (findIndex P xs))"
proof (induction xs)
  case Nil
  then show ?case by simp
next
  case (Cons x xs)
  show ?case
  proof (cases "P x")
    case True
    then show ?thesis by simp
  next
    case False
    with Cons.prems have r: "0 \<le> findIndex P xs"
      by (simp add: Let_def split: if_splits)
    with Cons.IH have "P (xs ! nat (findIndex P xs))" by simp
    with False r show ?thesis by (simp add: Let_def nat_add_distrib)
  qed
qed

lemma js_index_inserted:
  assumes "0 \<le> i" and "i < int (length ts)"
  shows "js_index (slice ts 0 i @ [a] @ slice_from ts i) i = Some a"
    and "js_index (slice ts 0 i @ [a] @ slice_from ts i) (i + 1) = Some (ts ! nat i)"
proof -
  from assms have n: "nat i < length ts" by simp
  from assms have s: "slice ts 0 i = take (nat i) ts" and f: "slice_from ts i = drop (nat i) ts"
    by (simp_all add: slice_def slice_from_def relative_index_def)
  from n have len: "length (take (nat i) ts) = nat i" by simp
  show "js_index (slice ts 0 i @ [a] @ slice_from ts i) i = Some a"
    using assms n by (simp add: s f js_index_def nth_append)
  have "(take (nat i) ts @ a # drop (nat i) ts) ! Suc (nat i) = ts ! nat i"
    using n by (simp add: nth_append)
  moreover from assms have "nat (i + 1) = Suc (nat i)" by simp
  ultimately show "js_index (slice ts 0 i @ [a] @ slice_from ts i) (i + 1) = Some (ts ! nat i)"
    using assms n by (simp add: s f js_index_def)
qed

text \<open>
  C3. The specification has the neighbours of the positional command read from the target
  list before the insertion: the hovered article after, the article in front of it
  before, and no neighbour for an empty target. The code reads them in the callback,
  which runs once the handler has put the article into the target list. For every
  accepted move with a client and no older callback waiting: when the hovered identifier
  is in the target list, the command names the dragged article itself as the before
  neighbour and the hovered article as the after neighbour; over the container of an
  empty target, it names no before neighbour and the dragged article itself as the after
  neighbour. The reorder of \<^verbatim>\<open>handleDragEnd\<close> reads its neighbours before it moves the
  article, as its note on \<^verbatim>\<open>arrayMove\<close> requires.
\<close>

theorem cross_list_callback_after_insertion:
  assumes "articleLists w = Some ls" and "activeArticle w = Some art"
    and "truthy (targetListOf ls ov) = Some t"
    and "listContaining ls (active_id active) \<noteq> Some t"
    and "listContaining ls (active_id active) = Some ''queue'' \<or> t = ''queue''"
    and "\<not> groupMismatch e art t"
    and "map_of ls t = Some ts"
    and "targetIndex = findIndex (\<lambda>a. id' a = over_id ov) ts"
    and "rep e" and "pending w = []"
  shows "\<exists>w'. handleDragOver e w active (Some ov) = Inr w' \<and>
           (0 \<le> targetIndex \<longrightarrow>
              resolveThen w'
                = Inr (w'\<lparr>trace := trace w'
                           @ [MoveArticlePosition (id' art) (Some (id' art)) (Some (over_id ov))
                                queue_sort_position],
                         pending := []\<rparr>)) \<and>
           (ts = [] \<longrightarrow>
              resolveThen w'
                = Inr (w'\<lparr>trace := trace w'
                           @ [MoveArticlePosition (id' art) None (Some (id' art))
                                queue_sort_position],
                         pending := []\<rparr>))"
proof -
  let ?new = "slice ts 0 targetIndex @ [art] @ slice_from ts targetIndex"
  obtain ls2 where ls2: "map_of ls2 t = Some ?new"
    and h: "handleDragOver e w active (Some ov)
             = Inr (w\<lparr>articleLists := Some ls2,
                     activeListId := Some t,
                     trace := trace w
                       @ mutate e (UpdateArticle (id' art) (t = ''queue'') (Some (now e)))
                       @ (if t = ''queue'' then [ReportEvent ''addArticleToQueue''] else []),
                     pending := pending w
                       @ (if rep e
                          then [\<lparr>cb_targetList = t,
                                 cb_targetIndex = findIndex (\<lambda>a. id' a = over_id ov) ts,
                                 cb_articleId = id' art\<rparr>]
                          else [])\<rparr>)"
    using accepted_move [OF assms(1-7)] assms(8) by blast
  let ?w' = "w\<lparr>articleLists := Some ls2,
                     activeListId := Some t,
                     trace := trace w
                       @ mutate e (UpdateArticle (id' art) (t = ''queue'') (Some (now e)))
                       @ (if t = ''queue'' then [ReportEvent ''addArticleToQueue''] else []),
                     pending := [\<lparr>cb_targetList = t, cb_targetIndex = targetIndex,
                                 cb_articleId = id' art\<rparr>]\<rparr>"
  have over: "handleDragOver e w active (Some ov) = Inr ?w'"
    using h assms(8,9,10) by simp
  have res: "resolveThen ?w'
      = Inr (?w'\<lparr>trace := trace ?w'
                @ [MoveArticlePosition (id' art)
                     (map_option id' (js_index ?new targetIndex))
                     (map_option id' (js_index ?new (targetIndex + 1)))
                     queue_sort_position],
              pending := []\<rparr>)"
    using ls2 by (simp add: resolveThen_def runThen_def)
  have found: "0 \<le> targetIndex \<longrightarrow>
      js_index ?new targetIndex = Some art \<and>
      map_option id' (js_index ?new (targetIndex + 1)) = Some (over_id ov)"
  proof
    assume nonneg: "0 \<le> targetIndex"
    have upper: "targetIndex < int (length ts)"
      using findIndex_bounds [of "\<lambda>a. id' a = over_id ov" ts] assms(8) by simp
    have "id' (ts ! nat targetIndex) = over_id ov"
      using findIndex_found [of "\<lambda>a. id' a = over_id ov" ts] nonneg assms(8) by simp
    with js_index_inserted [OF nonneg upper, of art]
    show "js_index ?new targetIndex = Some art \<and>
      map_option id' (js_index ?new (targetIndex + 1)) = Some (over_id ov)"
      by simp
  qed
  have empty: "ts = [] \<longrightarrow>
      js_index ?new targetIndex = None \<and> js_index ?new (targetIndex + 1) = Some art"
    using assms(8) by (simp add: js_index_def slice_def slice_from_def relative_index_def)
  from over res found empty show ?thesis
    by (intro exI [of _ ?w']) simp
qed

theorem cross_list_callback_after_insertion_witness:
  "resolveThen
       \<lparr>articleLists =
            Some [(''list'', []),
                  (''queue'', [plain ''q1'', plain ''a1'', plain ''q2'', plain ''q3''])],
          activeListId = Some ''queue'',
          activeArticle = Some (plain ''a1''),
          trace = [UpdateArticle ''a1'' True (Some 1700000000000),
                   ReportEvent ''addArticleToQueue''],
          pending = [\<lparr>cb_targetList = ''queue'', cb_targetIndex = 1, cb_articleId = ''a1''\<rparr>]\<rparr>
   = Inr \<lparr>articleLists =
            Some [(''list'', []),
                  (''queue'', [plain ''q1'', plain ''a1'', plain ''q2'', plain ''q3''])],
          activeListId = Some ''queue'',
          activeArticle = Some (plain ''a1''),
          trace = [UpdateArticle ''a1'' True (Some 1700000000000),
                   ReportEvent ''addArticleToQueue'',
                   MoveArticlePosition ''a1'' (Some ''a1'') (Some ''q2'') queue_sort_position],
          pending = []\<rparr>
   \<and> resolveThen
       \<lparr>articleLists = Some [(''queue'', []), (''favorites'', [plain ''a1''])],
          activeListId = Some ''favorites'',
          activeArticle = Some (plain ''a1''),
          trace = [UpdateArticle ''a1'' False (Some 1700000000000)],
          pending = [\<lparr>cb_targetList = ''favorites'', cb_targetIndex = - 1,
                      cb_articleId = ''a1''\<rparr>]\<rparr>
   = Inr \<lparr>articleLists = Some [(''queue'', []), (''favorites'', [plain ''a1''])],
          activeListId = Some ''favorites'',
          activeArticle = Some (plain ''a1''),
          trace = [UpdateArticle ''a1'' False (Some 1700000000000),
                   MoveArticlePosition ''a1'' None (Some ''a1'') queue_sort_position],
          pending = []\<rparr>"
proof -
  let ?w = "handleDragStart (idle listAndQueue) (dragging ''a1'')"
  let ?w1 = "\<lparr>articleLists =
            Some [(''list'', []),
                  (''queue'', [plain ''q1'', plain ''a1'', plain ''q2'', plain ''q3''])],
          activeListId = Some ''queue'',
          activeArticle = Some (plain ''a1''),
          trace = [UpdateArticle ''a1'' True (Some 1700000000000),
                   ReportEvent ''addArticleToQueue''],
          pending = [\<lparr>cb_targetList = ''queue'', cb_targetIndex = 1, cb_articleId = ''a1''\<rparr>]\<rparr>"
  let ?v = "handleDragStart (idle queueAndFavorites) (dragging ''a1'')"
  let ?v1 = "\<lparr>articleLists = Some [(''queue'', []), (''favorites'', [plain ''a1''])],
          activeListId = Some ''favorites'',
          activeArticle = Some (plain ''a1''),
          trace = [UpdateArticle ''a1'' False (Some 1700000000000)],
          pending = [\<lparr>cb_targetList = ''favorites'', cb_targetIndex = - 1,
                      cb_articleId = ''a1''\<rparr>]\<rparr>"
  have w: "?w = \<lparr>articleLists = Some listAndQueue, activeListId = Some ''list'',
                  activeArticle = Some (plain ''a1''), trace = [], pending = []\<rparr>"
    by (simp add: eval_defs)
  have v: "?v = \<lparr>articleLists = Some queueAndFavorites, activeListId = Some ''queue'',
                  activeArticle = Some (plain ''a1''), trace = [], pending = []\<rparr>"
    by (simp add: eval_defs)
  have over_w: "handleDragOver env0 ?w (dragging ''a1'') (Some (onItem ''q2'')) = Inr ?w1"
    by (simp add: eval_defs)
  have over_v: "handleDragOver env0 ?v (dragging ''a1'') (Some (onContainer ''favorites'')) = Inr ?v1"
    by (simp add: eval_defs)
  have a1: "articleLists ?w = Some listAndQueue" by (simp add: w)
  have a2: "activeArticle ?w = Some (plain ''a1'')" by (simp add: w)
  have a3: "truthy (targetListOf listAndQueue (onItem ''q2'')) = Some ''queue''"
    by (simp add: eval_defs)
  have a4: "listContaining listAndQueue (active_id (dragging ''a1'')) \<noteq> Some ''queue''"
    by (simp add: eval_defs)
  have a5: "listContaining listAndQueue (active_id (dragging ''a1'')) = Some ''queue''
            \<or> ''queue'' = ''queue''"
    by simp
  have a6: "\<not> groupMismatch env0 (plain ''a1'') ''queue''"
    by (simp add: eval_defs)
  have a7: "map_of listAndQueue ''queue'' = Some [plain ''q1'', plain ''q2'', plain ''q3'']"
    by (simp add: eval_defs)
  have a8: "1 = findIndex (\<lambda>a. id' a = over_id (onItem ''q2''))
                  [plain ''q1'', plain ''q2'', plain ''q3'']"
    by (simp add: eval_defs)
  have a9: "rep env0" by (simp add: env0_def)
  have a10: "pending ?w = []" by (simp add: w)
  from cross_list_callback_after_insertion [OF a1 a2 a3 a4 a5 a6 a7 a8 a9 a10]
  obtain w' where
    "handleDragOver env0 ?w (dragging ''a1'') (Some (onItem ''q2'')) = Inr w'"
    "(0::int) \<le> 1 \<longrightarrow>
       resolveThen w'
         = Inr (w'\<lparr>trace := trace w'
                    @ [MoveArticlePosition (id' (plain ''a1'')) (Some (id' (plain ''a1'')))
                         (Some (over_id (onItem ''q2''))) queue_sort_position],
                  pending := []\<rparr>)"
    by (elim exE conjE) (rule that)
  with over_w have first:
    "resolveThen ?w1
       = Inr (?w1\<lparr>trace := trace ?w1
                  @ [MoveArticlePosition (id' (plain ''a1'')) (Some (id' (plain ''a1'')))
                       (Some (over_id (onItem ''q2''))) queue_sort_position],
                pending := []\<rparr>)"
    by simp
  have b1: "articleLists ?v = Some queueAndFavorites" by (simp add: v)
  have b2: "activeArticle ?v = Some (plain ''a1'')" by (simp add: v)
  have b3: "truthy (targetListOf queueAndFavorites (onContainer ''favorites'')) = Some ''favorites''"
    by (simp add: eval_defs)
  have b4: "listContaining queueAndFavorites (active_id (dragging ''a1'')) \<noteq> Some ''favorites''"
    by (simp add: eval_defs)
  have b5: "listContaining queueAndFavorites (active_id (dragging ''a1'')) = Some ''queue''
            \<or> ''favorites'' = ''queue''"
    by (simp add: eval_defs)
  have b6: "\<not> groupMismatch env0 (plain ''a1'') ''favorites''"
    by (simp add: eval_defs)
  have b7: "map_of queueAndFavorites ''favorites'' = Some []"
    by (simp add: eval_defs)
  have b10: "pending ?v = []" by (simp add: v)
  from cross_list_callback_after_insertion [OF b1 b2 b3 b4 b5 b6 b7 refl a9 b10]
  obtain v' where
    "handleDragOver env0 ?v (dragging ''a1'') (Some (onContainer ''favorites'')) = Inr v'"
    "([] :: Article list) = [] \<longrightarrow>
       resolveThen v'
         = Inr (v'\<lparr>trace := trace v'
                    @ [MoveArticlePosition (id' (plain ''a1'')) None (Some (id' (plain ''a1'')))
                         queue_sort_position],
                  pending := []\<rparr>)"
    by (elim exE conjE) (rule that)
  with over_v have second:
    "resolveThen ?v1
       = Inr (?v1\<lparr>trace := trace ?v1
                  @ [MoveArticlePosition (id' (plain ''a1'')) None (Some (id' (plain ''a1'')))
                       queue_sort_position],
                pending := []\<rparr>)"
    by simp
  from first second show ?thesis
    by (simp add: example_defs)
qed

subsection \<open>Moving an article to another list and back\<close>

lemma slice_slice_from: "slice xs 0 i @ slice_from xs i = xs"
  by (simp add: slice_def slice_from_def relative_index_def)

lemma filter_insert_other:
  assumes "\<not> P a"
  shows "filter P (slice xs 0 i @ [a] @ slice_from xs i) = filter P xs"
proof -
  have "filter P (slice xs 0 i @ [a] @ slice_from xs i)
          = filter P (slice xs 0 i @ slice_from xs i)"
    using assms by simp
  then show ?thesis by (simp only: slice_slice_from)
qed

lemma set_insert: "set (slice xs 0 i @ [a] @ slice_from xs i) = insert a (set xs)"
proof -
  have "set (slice xs 0 i @ [a] @ slice_from xs i)
          = insert a (set (slice xs 0 i @ slice_from xs i))"
    by simp
  then show ?thesis by (simp only: slice_slice_from)
qed

lemma update_commute:
  assumes "k \<noteq> k'" and "k \<in> fst ` set al" and "k' \<in> fst ` set al"
  shows "AList.update k v (AList.update k' v' al) = AList.update k' v' (AList.update k v al)"
  using assms
proof (induction al)
  case Nil
  then show ?case by simp
next
  case (Cons p ps)
  show ?case
  proof (cases "fst p = k")
    case True
    with Cons.prems(1) show ?thesis by simp
  next
    case False
    show ?thesis
    proof (cases "fst p = k'")
      case True
      with Cons.prems(1) show ?thesis by simp
    next
      case other: False
      with False Cons.prems have "k \<in> fst ` set ps" and "k' \<in> fst ` set ps" by auto
      with Cons.IH Cons.prems(1) False other show ?thesis by simp
    qed
  qed
qed

lemma reinsert_at_findIndex:
  assumes "distinct (map f xs)" and "a \<in> set xs"
  shows "0 \<le> findIndex (\<lambda>b. f b = f a) xs \<and>
         nat (findIndex (\<lambda>b. f b = f a) xs) \<le> length (filter (\<lambda>b. f b \<noteq> f a) xs) \<and>
         take (nat (findIndex (\<lambda>b. f b = f a) xs)) (filter (\<lambda>b. f b \<noteq> f a) xs) @ [a]
           @ drop (nat (findIndex (\<lambda>b. f b = f a) xs)) (filter (\<lambda>b. f b \<noteq> f a) xs) = xs"
  using assms
proof (induction xs)
  case Nil
  then show ?case by simp
next
  case (Cons x xs)
  show ?case
  proof (cases "f x = f a")
    case True
    with Cons.prems have xa: "x = a"
      by (metis distinct.simps(2) image_eqI list.simps(9) set_ConsD set_map)
    from Cons.prems xa have "\<forall>b \<in> set xs. f b \<noteq> f a" by (auto intro: rev_image_eqI)
    then have "filter (\<lambda>b. f b \<noteq> f a) xs = xs" by (simp add: filter_id_conv)
    with True xa show ?thesis by simp
  next
    case False
    with Cons.prems have in_xs: "a \<in> set xs" and d: "distinct (map f xs)" by auto
    from Cons.IH [OF d in_xs] False show ?thesis
      by (simp add: Let_def nat_add_distrib)
  qed
qed

text \<open>
  C9. The two assignments of an accepted move (\<open>moveBetweenLists\<close>), applied from a list
  \<open>L1\<close> that holds the article to another list \<open>L2\<close> at any index and then back to
  \<open>L1\<close> at any index, for a cache in which no article of \<open>L2\<close> has the identifier of
  the moved one: both moves succeed; the keys of the cache and their order are as at the
  start; \<open>L2\<close> and every list other than \<open>L1\<close> are exactly as at the start; \<open>L1\<close>
  holds the article again, has the same identifiers as at the start, and its other
  articles are in their original order. When the identifiers of \<open>L1\<close> are distinct and
  the index of the way back is the article's original position, the whole cache is as at
  the start.
\<close>

theorem cross_list_round_trip:
  assumes "map_of ls L1 = Some xs" and "map_of ls L2 = Some ys"
    and "L1 \<noteq> L2" and "L1 \<noteq> []" and "L2 \<noteq> []"
    and "a \<in> set xs" and "id' a \<notin> id' ` set ys"
  shows "\<exists>ls1 ls2 zs.
           moveBetweenLists ls a (Some L1) L2 j = Inr ls1 \<and>
           moveBetweenLists ls1 a (Some L2) L1 i = Inr ls2 \<and>
           map fst ls2 = map fst ls \<and>
           map_of ls2 L2 = Some ys \<and>
           (\<forall>k. k \<noteq> L1 \<and> k \<noteq> L2 \<longrightarrow> map_of ls2 k = map_of ls k) \<and>
           map_of ls2 L1 = Some zs \<and>
           a \<in> set zs \<and>
           id' ` set zs = id' ` set xs \<and>
           filter (\<lambda>b. id' b \<noteq> id' a) zs = filter (\<lambda>b. id' b \<noteq> id' a) xs \<and>
           (distinct (map id' xs) \<and> i = findIndex (\<lambda>b. id' b = id' a) xs \<longrightarrow> ls2 = ls)"
proof -
  let ?P = "\<lambda>b. id' b \<noteq> id' a"
  let ?xs' = "filter ?P xs"
  let ?ys' = "slice ys 0 j @ [a] @ slice_from ys j"
  let ?zs = "slice ?xs' 0 i @ [a] @ slice_from ?xs' i"
  let ?lsa = "AList.update L1 ?xs' ls"
  let ?ls1 = "AList.update L2 ?ys' ?lsa"
  let ?lsb = "AList.update L2 ys ?lsa"
  let ?ls2 = "AList.update L1 ?zs ?lsb"
  have ys_id: "filter ?P ys = ys"
    using assms(7) by (auto simp add: filter_id_conv image_iff)
  have ys_back: "filter ?P ?ys' = ys"
    using filter_insert_other [of ?P a ys j] ys_id by simp
  have first: "moveBetweenLists ls a (Some L1) L2 j = Inr ?ls1"
    using assms(1-4)
    by (simp add: moveBetweenLists_def truthy_def removeFromList_def insertIntoList_def update_conv')
  have "AList.update L2 (filter ?P ?ys') ?ls1 = ?lsb"
    by (simp only: ys_back update_last)
  then have second: "moveBetweenLists ?ls1 a (Some L2) L1 i = Inr ?ls2"
    using assms(3,5)
    by (simp add: moveBetweenLists_def truthy_def removeFromList_def insertIntoList_def update_conv')
  have ka: "map fst ?lsa = map fst ls"
    using assms(1) by (rule update_keys_present)
  have kb: "map fst ?lsb = map fst ?lsa"
    by (rule update_keys_present [of _ _ ys]) (use assms(2,3) in \<open>simp add: update_conv'\<close>)
  have k2: "map fst ?ls2 = map fst ?lsb"
    by (rule update_keys_present [of _ _ ?xs']) (use assms(3) in \<open>simp add: update_conv'\<close>)
  from ka kb k2 have keys: "map fst ?ls2 = map fst ls" by simp
  have l2: "map_of ?ls2 L2 = Some ys"
    using assms(3) by (simp add: update_conv')
  have others: "\<forall>k. k \<noteq> L1 \<and> k \<noteq> L2 \<longrightarrow> map_of ?ls2 k = map_of ls k"
    by (simp add: update_conv')
  have l1: "map_of ?ls2 L1 = Some ?zs"
    by (simp add: update_conv')
  have mem: "a \<in> set ?zs"
    by (simp only: set_insert) simp
  have "set ?zs = insert a (set ?xs')"
    by (rule set_insert)
  then have ids: "id' ` set ?zs = id' ` set xs"
    using assms(6) by auto
  have order: "filter ?P ?zs = filter ?P xs"
    using filter_insert_other [of ?P a ?xs' i] by simp
  have exact: "distinct (map id' xs) \<and> i = findIndex (\<lambda>b. id' b = id' a) xs \<longrightarrow> ?ls2 = ls"
  proof
    assume h: "distinct (map id' xs) \<and> i = findIndex (\<lambda>b. id' b = id' a) xs"
    with reinsert_at_findIndex [of id' xs a] assms(6)
    have i0: "0 \<le> i" and le: "nat i \<le> length ?xs'"
      and eq: "take (nat i) ?xs' @ [a] @ drop (nat i) ?xs' = xs"
      by auto
    from i0 le have "relative_index i (length ?xs') = nat i"
      by (simp add: relative_index_def)
    with eq have zs: "?zs = xs"
      by (simp add: slice_def slice_from_def relative_index_def)
    have "?ls2 = AList.update L1 xs (AList.update L2 ys (AList.update L1 ?xs' ls))"
      by (simp only: zs)
    also have "\<dots> = AList.update L1 xs (AList.update L1 ?xs' (AList.update L2 ys ls))"
      using assms(1,2,3)
      by (subst update_commute [of L2 L1]) (auto dest: map_of_SomeD intro: rev_image_eqI)
    also have "\<dots> = AList.update L1 xs ls"
      using assms(2) by (simp add: update_triv)
    also have "\<dots> = ls"
      using assms(1) by (simp add: update_triv)
    finally show "?ls2 = ls" .
  qed
  from first second keys l2 others l1 mem ids order exact show ?thesis by blast
qed

theorem cross_list_round_trip_witness:
  "moveBetweenLists listAndQueue (plain ''q2'') (Some ''queue'') ''list'' 0
     = Inr [(''list'', [plain ''q2'', plain ''a1'']), (''queue'', [plain ''q1'', plain ''q3''])] \<and>
   moveBetweenLists
       [(''list'', [plain ''q2'', plain ''a1'']), (''queue'', [plain ''q1'', plain ''q3''])]
       (plain ''q2'') (Some ''list'') ''queue'' 1
     = Inr listAndQueue"
proof -
  let ?xs = "[plain ''q1'', plain ''q2'', plain ''q3'']"
  let ?mid = "[(''list'', [plain ''q2'', plain ''a1'']), (''queue'', [plain ''q1'', plain ''q3''])]"
  have 1: "map_of listAndQueue ''queue'' = Some ?xs" by (simp add: listAndQueue_def)
  have 2: "map_of listAndQueue ''list'' = Some [plain ''a1'']" by (simp add: listAndQueue_def)
  have 3: "''queue'' \<noteq> ''list''" and 4: "''queue'' \<noteq> []" and 5: "''list'' \<noteq> []" by simp_all
  have 6: "plain ''q2'' \<in> set ?xs" by simp
  have 7: "id' (plain ''q2'') \<notin> id' ` set [plain ''a1'']" by (simp add: plain_def)
  have 8: "distinct (map id' ?xs) \<and> 1 = findIndex (\<lambda>b. id' b = id' (plain ''q2'')) ?xs"
    by (simp add: plain_def)
  from cross_list_round_trip [OF 1 2 3 4 5 6 7, of 0 1]
  obtain ls1 ls2 where
    a: "moveBetweenLists listAndQueue (plain ''q2'') (Some ''queue'') ''list'' 0 = Inr ls1" and
    b: "moveBetweenLists ls1 (plain ''q2'') (Some ''list'') ''queue'' 1 = Inr ls2" and
    imp: "distinct (map id' ?xs) \<and> 1 = findIndex (\<lambda>b. id' b = id' (plain ''q2'')) ?xs
            \<longrightarrow> ls2 = listAndQueue"
    by (elim exE conjE) (rule that)
  from imp 8 have c: "ls2 = listAndQueue" by (rule mp)
  have "moveBetweenLists listAndQueue (plain ''q2'') (Some ''queue'') ''list'' 0 = Inr ?mid"
    by (simp add: eval_defs)
  with a have "ls1 = ?mid" by simp
  with a b c show ?thesis by simp
qed

subsection \<open>From the queue onto the empty favorites list\<close>

lemma list_ex_find: "list_ex P xs \<Longrightarrow> \<exists>x. List.find P xs = Some x \<and> P x"
  by (induction xs) auto

text \<open>
  C1, as the code has it. A drag starts on an article that the queue holds and hovers the
  container of the empty list \<^verbatim>\<open>"favorites"\<close>. The source is the queue, so the queue
  rule lets the move pass, and \<^verbatim>\<open>"favorites"\<close> is neither a topic nor a domain list:
  the move is accepted. The article leaves the queue and becomes the only article of
  \<^verbatim>\<open>"favorites"\<close>, the recorded list becomes \<^verbatim>\<open>"favorites"\<close>, and
  \<^verbatim>\<open>updateArticle\<close> is called with \<^verbatim>\<open>is_queued: false\<close> and the current time. An end
  event on any drop target then clears the recorded article and list and reports
  \<^verbatim>\<open>"reorderArticles"\<close>; it calls no \<^verbatim>\<open>updateArticle\<close>, and \<^verbatim>\<open>moveArticlePosition\<close>
  (with no neighbours, for the favorites position) only when the target is not the
  article itself.
\<close>

theorem queue_to_empty_favorites:
  assumes "articleLists w = Some ls" and "active_data active"
    and "listContaining ls (active_id active) = Some ''queue''"
    and "map_of ls ''queue'' = Some q"
    and "map_of ls ''favorites'' = Some []"
    and "over_id ov = ''favorites''" and "\<not> over_data ov"
  shows "\<exists>art ls2 w2.
           List.find (\<lambda>a. id' a = active_id active) q = Some art \<and>
           ls2 = AList.update ''favorites'' [art]
                   (AList.update ''queue'' (filter (\<lambda>a. id' a \<noteq> active_id active) q) ls) \<and>
           w2 = w\<lparr>articleLists := Some ls2,
                  activeListId := Some ''favorites'',
                  activeArticle := Some art,
                  trace := trace w
                    @ mutate e (UpdateArticle (active_id active) False (Some (now e))),
                  pending := pending w
                    @ (if rep e
                       then [\<lparr>cb_targetList = ''favorites'', cb_targetIndex = - 1,
                              cb_articleId = active_id active\<rparr>]
                       else [])\<rparr> \<and>
           handleDragOver e (handleDragStart w active) active (Some ov) = Inr w2 \<and>
           (\<forall>ov'. handleDragEnd e w2 active (Some ov')
                    = Inr (w2\<lparr>activeArticle := None,
                             activeListId := None,
                             trace := trace w2
                               @ (if active_id active = over_id ov' then []
                                  else mutate e (MoveArticlePosition (active_id active) None None
                                                   favorites_sort_position)
                                       @ [SetArticleLists ls2])
                               @ [ReportEvent ''reorderArticles'']\<rparr>))"
proof -
  from assms(3,4) have "list_ex (\<lambda>a. id' a = active_id active) q"
    by (auto dest: listContaining_Some)
  then obtain art where art: "List.find (\<lambda>a. id' a = active_id active) q = Some art"
    and art_id: "id' art = active_id active"
    by (auto dest: list_ex_find)
  let ?ls2 = "AList.update ''favorites'' [art]
                   (AList.update ''queue'' (filter (\<lambda>a. id' a \<noteq> active_id active) q) ls)"
  let ?w1 = "w\<lparr>activeListId := Some ''queue'', activeArticle := Some art\<rparr>"
  let ?w2 = "w\<lparr>articleLists := Some ?ls2,
                  activeListId := Some ''favorites'',
                  activeArticle := Some art,
                  trace := trace w
                    @ mutate e (UpdateArticle (active_id active) False (Some (now e))),
                  pending := pending w
                    @ (if rep e
                       then [\<lparr>cb_targetList = ''favorites'', cb_targetIndex = - 1,
                              cb_articleId = active_id active\<rparr>]
                       else [])\<rparr>"
  have start: "handleDragStart w active = ?w1"
    using assms(1-4) art by (simp add: handleDragStart_def truthy_def)
  have no_group: "\<not> groupMismatch e art ''favorites''"
    by (simp add: groupMismatch_def endsWith_char includes_char)
  have over: "handleDragOver e ?w1 active (Some ov) = Inr ?w2"
    using assms art_id no_group
    by (simp add: handleDragOver_def targetListOf_def truthy_def moveBetweenLists_def
        removeFromList_def insertIntoList_def slice_def slice_from_def relative_index_def
        update_conv')
  have fav: "map_of ?ls2 ''favorites'' = Some [art]"
    by (simp add: update_conv')
  have same: "AList.update ''favorites'' [art] ?ls2 = ?ls2"
    by simp
  have "\<forall>ov'. handleDragEnd e ?w2 active (Some ov')
                    = Inr (?w2\<lparr>activeArticle := None,
                             activeListId := None,
                             trace := trace ?w2
                               @ (if active_id active = over_id ov' then []
                                  else mutate e (MoveArticlePosition (active_id active) None None
                                                   favorites_sort_position)
                                       @ [SetArticleLists ?ls2])
                               @ [ReportEvent ''reorderArticles'']\<rparr>)"
  proof
    fix ov'
    show "handleDragEnd e ?w2 active (Some ov')
                    = Inr (?w2\<lparr>activeArticle := None,
                             activeListId := None,
                             trace := trace ?w2
                               @ (if active_id active = over_id ov' then []
                                  else mutate e (MoveArticlePosition (active_id active) None None
                                                   favorites_sort_position)
                                       @ [SetArticleLists ?ls2])
                               @ [ReportEvent ''reorderArticles'']\<rparr>)"
    proof (cases "active_id active = over_id ov'")
      case True
      then show ?thesis
        by (simp add: handleDragEnd_def truthy_def)
    next
      case False
      with art_id have new: "findIndex (\<lambda>a. id' a = over_id ov') [art] = - 1"
        by simp
      from art_id have old: "findIndex (\<lambda>a. id' a = active_id active) [art] = 0"
        by simp
      have moved: "arrayMove [art] 0 (- 1) = Some [art]"
        by (simp add: arrayMove_def relative_index_def)
      from False fav new old moved same show ?thesis
        by (simp add: handleDragEnd_def truthy_def sortKey_def newIndexShifted_def
            js_index_def idOrNull_def)
    qed
  qed
  with art start over show ?thesis by simp
qed

theorem queue_to_empty_favorites_witness:
  "handleDragOver env0 (handleDragStart (idle queueAndFavorites) (dragging ''a1''))
     (dragging ''a1'') (Some (onContainer ''favorites''))
   = Inr \<lparr>articleLists = Some [(''queue'', []), (''favorites'', [plain ''a1''])],
          activeListId = Some ''favorites'',
          activeArticle = Some (plain ''a1''),
          trace = [UpdateArticle ''a1'' False (Some 1700000000000)],
          pending = [\<lparr>cb_targetList = ''favorites'', cb_targetIndex = - 1,
                      cb_articleId = ''a1''\<rparr>]\<rparr>
   \<and> handleDragEnd env0
       \<lparr>articleLists = Some [(''queue'', []), (''favorites'', [plain ''a1''])],
          activeListId = Some ''favorites'',
          activeArticle = Some (plain ''a1''),
          trace = [UpdateArticle ''a1'' False (Some 1700000000000)],
          pending = [\<lparr>cb_targetList = ''favorites'', cb_targetIndex = - 1,
                      cb_articleId = ''a1''\<rparr>]\<rparr>
       (dragging ''a1'') (Some (onItem ''a1''))
   = Inr \<lparr>articleLists = Some [(''queue'', []), (''favorites'', [plain ''a1''])],
          activeListId = None,
          activeArticle = None,
          trace = [UpdateArticle ''a1'' False (Some 1700000000000),
                   ReportEvent ''reorderArticles''],
          pending = [\<lparr>cb_targetList = ''favorites'', cb_targetIndex = - 1,
                      cb_articleId = ''a1''\<rparr>]\<rparr>"
proof -
  have 1: "articleLists (idle queueAndFavorites) = Some queueAndFavorites"
    by (simp add: idle_def)
  have 2: "active_data (dragging ''a1'')" by (simp add: dragging_def)
  have 3: "listContaining queueAndFavorites (active_id (dragging ''a1'')) = Some ''queue''"
    by (simp add: eval_defs)
  have 4: "map_of queueAndFavorites ''queue'' = Some [plain ''a1'']"
    by (simp add: queueAndFavorites_def)
  have 5: "map_of queueAndFavorites ''favorites'' = Some []"
    by (simp add: queueAndFavorites_def)
  have 6: "over_id (onContainer ''favorites'') = ''favorites''"
    and 7: "\<not> over_data (onContainer ''favorites'')"
    by (simp_all add: onContainer_def)
  from queue_to_empty_favorites [OF 1 2 3 4 5 6 7, of env0]
  obtain art ls2 w2 where
    a: "List.find (\<lambda>a. id' a = active_id (dragging ''a1'')) [plain ''a1''] = Some art" and
    l: "ls2 = AList.update ''favorites'' [art]
                (AList.update ''queue''
                   (filter (\<lambda>a. id' a \<noteq> active_id (dragging ''a1'')) [plain ''a1''])
                   queueAndFavorites)" and
    w: "w2 = (idle queueAndFavorites)\<lparr>articleLists := Some ls2,
                  activeListId := Some ''favorites'',
                  activeArticle := Some art,
                  trace := trace (idle queueAndFavorites)
                    @ mutate env0 (UpdateArticle (active_id (dragging ''a1'')) False
                                     (Some (now env0))),
                  pending := pending (idle queueAndFavorites)
                    @ (if rep env0
                       then [\<lparr>cb_targetList = ''favorites'', cb_targetIndex = - 1,
                              cb_articleId = active_id (dragging ''a1'')\<rparr>]
                       else [])\<rparr>" and
    o: "handleDragOver env0 (handleDragStart (idle queueAndFavorites) (dragging ''a1''))
          (dragging ''a1'') (Some (onContainer ''favorites'')) = Inr w2" and
    e: "\<forall>ov'. handleDragEnd env0 w2 (dragging ''a1'') (Some ov')
                    = Inr (w2\<lparr>activeArticle := None,
                             activeListId := None,
                             trace := trace w2
                               @ (if active_id (dragging ''a1'') = over_id ov' then []
                                  else mutate env0
                                         (MoveArticlePosition (active_id (dragging ''a1'')) None None
                                            favorites_sort_position)
                                       @ [SetArticleLists ls2])
                               @ [ReportEvent ''reorderArticles'']\<rparr>)"
    by (elim exE conjE) (rule that)
  from a have art: "art = plain ''a1''" by (simp add: example_defs)
  from l art have ls2: "ls2 = [(''queue'', []), (''favorites'', [plain ''a1''])]"
    by (simp add: eval_defs)
  from w art ls2 have w2: "w2 = \<lparr>articleLists = Some [(''queue'', []), (''favorites'', [plain ''a1''])],
          activeListId = Some ''favorites'',
          activeArticle = Some (plain ''a1''),
          trace = [UpdateArticle ''a1'' False (Some 1700000000000)],
          pending = [\<lparr>cb_targetList = ''favorites'', cb_targetIndex = - 1,
                      cb_articleId = ''a1''\<rparr>]\<rparr>"
    by (simp add: example_defs mutate_def)
  from e have "handleDragEnd env0 w2 (dragging ''a1'') (Some (onItem ''a1''))
                    = Inr (w2\<lparr>activeArticle := None,
                             activeListId := None,
                             trace := trace w2 @ [ReportEvent ''reorderArticles'']\<rparr>)"
    by (simp add: example_defs)
  with o show ?thesis by (simp add: w2)
qed

text \<open>
  The scenario of claim C1 as the specification states it (the over event denied, the
  cache untouched, a membership-clear command at the end) fails on the cache with
  \<open>a1\<close> in the queue and an empty \<^verbatim>\<open>"favorites"\<close>: the over event changes both lists,
  and the end event over the same container issues a positional command and no
  membership-clear command.
\<close>

theorem queue_to_empty_favorites_counterexample:
  "handleDragOver env0 (handleDragStart (idle queueAndFavorites) (dragging ''a1''))
     (dragging ''a1'') (Some (onContainer ''favorites''))
   = Inr \<lparr>articleLists = Some [(''queue'', []), (''favorites'', [plain ''a1''])],
          activeListId = Some ''favorites'',
          activeArticle = Some (plain ''a1''),
          trace = [UpdateArticle ''a1'' False (Some 1700000000000)],
          pending = [\<lparr>cb_targetList = ''favorites'', cb_targetIndex = - 1,
                      cb_articleId = ''a1''\<rparr>]\<rparr>
   \<and> articleLists (handleDragStart (idle queueAndFavorites) (dragging ''a1''))
       = Some [(''queue'', [plain ''a1'']), (''favorites'', [])]
   \<and> handleDragEnd env0
       \<lparr>articleLists = Some [(''queue'', []), (''favorites'', [plain ''a1''])],
          activeListId = Some ''favorites'',
          activeArticle = Some (plain ''a1''),
          trace = [UpdateArticle ''a1'' False (Some 1700000000000)],
          pending = [\<lparr>cb_targetList = ''favorites'', cb_targetIndex = - 1,
                      cb_articleId = ''a1''\<rparr>]\<rparr>
       (dragging ''a1'') (Some (onContainer ''favorites''))
   = Inr \<lparr>articleLists = Some [(''queue'', []), (''favorites'', [plain ''a1''])],
          activeListId = None,
          activeArticle = None,
          trace = [UpdateArticle ''a1'' False (Some 1700000000000),
                   MoveArticlePosition ''a1'' None None favorites_sort_position,
                   SetArticleLists [(''queue'', []), (''favorites'', [plain ''a1''])],
                   ReportEvent ''reorderArticles''],
          pending = [\<lparr>cb_targetList = ''favorites'', cb_targetIndex = - 1,
                      cb_articleId = ''a1''\<rparr>]\<rparr>"
  by (simp add: eval_defs)

subsection \<open>What an end event leaves behind\<close>

text \<open>
  C2, as the code has it. An end event without a drop target, or without a cache, changes
  nothing and reports nothing. With no recorded list it only calls \<^verbatim>\<open>updateArticle\<close>
  with \<^verbatim>\<open>is_queued: false\<close> for the active identifier; the cache and the recorded list
  are as before and nothing is reported. With a recorded list whose sort order cannot be
  determined, and a target other than the active identifier, it only logs the error, and
  the component is as before. With a recorded list and either the active identifier as
  target, or a non-empty list whose sort order is known, the handler clears the recorded
  article and the recorded list, and \<^verbatim>\<open>"reorderArticles"\<close> is the last event it reports.
\<close>

theorem end_of_session:
  "handleDragEnd e w active None = Inr w \<and>
   (articleLists w = None \<longrightarrow> handleDragEnd e w active over = Inr w) \<and>
   (articleLists w = Some ls \<and> truthy (activeListId w) = None \<longrightarrow>
      handleDragEnd e w active (Some ov)
        = Inr (w\<lparr>trace := trace w @ mutate e (UpdateArticle (active_id active) False None)\<rparr>)) \<and>
   (articleLists w = Some ls \<and> truthy (activeListId w) = Some l \<and>
    active_id active \<noteq> over_id ov \<and> map_of ls l = Some as \<and> sortKey l = None \<longrightarrow>
      handleDragEnd e w active (Some ov)
        = Inr (w\<lparr>trace := trace w
                 @ [ConsoleError (''Could not determine sort position to reorder for list '' @ l)]\<rparr>)) \<and>
   (articleLists w = Some ls \<and> truthy (activeListId w) = Some l \<and>
    (active_id active = over_id ov \<or>
     (map_of ls l = Some as \<and> as \<noteq> [] \<and> sortKey l = Some k)) \<longrightarrow>
      (\<exists>w' es. handleDragEnd e w active (Some ov) = Inr w' \<and>
         activeArticle w' = None \<and> activeListId w' = None \<and>
         trace w' = trace w @ es @ [ReportEvent ''reorderArticles'']))"
proof -
  have 1: "handleDragEnd e w active None = Inr w"
    by (simp add: handleDragEnd_def)
  have 2: "articleLists w = None \<longrightarrow> handleDragEnd e w active over = Inr w"
    by (simp add: handleDragEnd_def split: option.splits)
  have 3: "articleLists w = Some ls \<and> truthy (activeListId w) = None \<longrightarrow>
      handleDragEnd e w active (Some ov)
        = Inr (w\<lparr>trace := trace w @ mutate e (UpdateArticle (active_id active) False None)\<rparr>)"
    by (simp add: handleDragEnd_def)
  have 4: "articleLists w = Some ls \<and> truthy (activeListId w) = Some l \<and>
    active_id active \<noteq> over_id ov \<and> map_of ls l = Some as \<and> sortKey l = None \<longrightarrow>
      handleDragEnd e w active (Some ov)
        = Inr (w\<lparr>trace := trace w
                 @ [ConsoleError (''Could not determine sort position to reorder for list '' @ l)]\<rparr>)"
    by (simp add: handleDragEnd_def Let_def)
  have 5: "articleLists w = Some ls \<and> truthy (activeListId w) = Some l \<and>
    (active_id active = over_id ov \<or>
     (map_of ls l = Some as \<and> as \<noteq> [] \<and> sortKey l = Some k)) \<longrightarrow>
      (\<exists>w' es. handleDragEnd e w active (Some ov) = Inr w' \<and>
         activeArticle w' = None \<and> activeListId w' = None \<and>
         trace w' = trace w @ es @ [ReportEvent ''reorderArticles''])"
  proof
    assume h: "articleLists w = Some ls \<and> truthy (activeListId w) = Some l \<and>
      (active_id active = over_id ov \<or>
       (map_of ls l = Some as \<and> as \<noteq> [] \<and> sortKey l = Some k))"
    show "\<exists>w' es. handleDragEnd e w active (Some ov) = Inr w' \<and>
         activeArticle w' = None \<and> activeListId w' = None \<and>
         trace w' = trace w @ es @ [ReportEvent ''reorderArticles'']"
    proof (cases "active_id active = over_id ov")
      case True
      with h have "handleDragEnd e w active (Some ov)
          = Inr (w\<lparr>activeArticle := None, activeListId := None,
                   trace := trace w @ [] @ [ReportEvent ''reorderArticles'']\<rparr>)"
        by (simp add: handleDragEnd_def)
      then show ?thesis
        by (intro exI [of _ "w\<lparr>activeArticle := None, activeListId := None,
                   trace := trace w @ [] @ [ReportEvent ''reorderArticles'']\<rparr>"]
                  exI [of _ "[]"]) simp
    next
      case False
      with h have as: "map_of ls l = Some as" "as \<noteq> []" and k: "sortKey l = Some k"
        by auto
      from h have ls: "articleLists w = Some ls" and l: "truthy (activeListId w) = Some l"
        by auto
      obtain moved where moved:
        "arrayMove as (findIndex (\<lambda>a. id' a = active_id active) as)
           (findIndex (\<lambda>a. id' a = over_id ov) as) = Some moved"
        using arrayMove_findIndex [OF as(2)] by blast
      let ?es = "mutate e (MoveArticlePosition (active_id active)
                    (idOrNull (js_index as (newIndexShifted
                       (findIndex (\<lambda>a. id' a = active_id active) as)
                       (findIndex (\<lambda>a. id' a = over_id ov) as) - 1)))
                    (idOrNull (js_index as (newIndexShifted
                       (findIndex (\<lambda>a. id' a = active_id active) as)
                       (findIndex (\<lambda>a. id' a = over_id ov) as)))) k)
                 @ [SetArticleLists (AList.update l moved ls)]"
      let ?w' = "w\<lparr>articleLists := Some (AList.update l moved ls),
                   activeArticle := None,
                   activeListId := None,
                   trace := trace w @ ?es @ [ReportEvent ''reorderArticles'']\<rparr>"
      have "handleDragEnd e w active (Some ov) = Inr ?w'"
        using ls l as(1) False k moved by (simp add: handleDragEnd_def Let_def)
      then show ?thesis
        by (intro exI [of _ ?w'] exI [of _ ?es]) simp
    qed
  qed
  from 1 2 3 4 5 show ?thesis by (intro conjI)
qed

theorem end_of_session_witness:
  "handleDragEnd env0
     \<lparr>articleLists = Some [(''queue'', [plain ''q1'']), (''news_'', [plain ''n1''])],
      activeListId = None, activeArticle = Some (sports ''x''), trace = [], pending = []\<rparr>
     (dragging ''x'') (Some (onItem ''n1''))
   = Inr \<lparr>articleLists = Some [(''queue'', [plain ''q1'']), (''news_'', [plain ''n1''])],
          activeListId = None, activeArticle = Some (sports ''x''),
          trace = [UpdateArticle ''x'' False None], pending = []\<rparr>
   \<and> (\<exists>w' es.
         handleDragEnd env0 (handleDragStart (idle listAndQueue) (dragging ''q1''))
           (dragging ''q1'') (Some (onItem ''q3'')) = Inr w' \<and>
         activeArticle w' = None \<and> activeListId w' = None \<and>
         trace w' = es @ [ReportEvent ''reorderArticles''])
   \<and> (\<exists>w' es.
         handleDragEnd env0 (handleDragStart (idle listAndQueue) (dragging ''q1''))
           (dragging ''q1'') (Some (onItem ''q1'')) = Inr w' \<and>
         activeArticle w' = None \<and> activeListId w' = None \<and>
         trace w' = es @ [ReportEvent ''reorderArticles''])"
proof -
  let ?n = "\<lparr>articleLists = Some [(''queue'', [plain ''q1'']), (''news_'', [plain ''n1''])],
      activeListId = None, activeArticle = Some (sports ''x''), trace = [], pending = []\<rparr>"
  let ?w = "handleDragStart (idle listAndQueue) (dragging ''q1'')"
  have w: "?w = \<lparr>articleLists = Some listAndQueue, activeListId = Some ''queue'',
                  activeArticle = Some (plain ''q1''), trace = [], pending = []\<rparr>"
    by (simp add: eval_defs)
  have a: "handleDragEnd env0 ?n (dragging ''x'') (Some (onItem ''n1''))
        = Inr (?n\<lparr>trace := trace ?n
                  @ mutate env0 (UpdateArticle (active_id (dragging ''x'')) False None)\<rparr>)"
    using end_of_session
      [of env0 ?n "dragging ''x''" None
          "[(''queue'', [plain ''q1'']), (''news_'', [plain ''n1''])]" "onItem ''n1''"]
    by (simp add: truthy_def)
  have b: "\<exists>w' es. handleDragEnd env0 ?w (dragging ''q1'') (Some (onItem ''q3'')) = Inr w' \<and>
         activeArticle w' = None \<and> activeListId w' = None \<and>
         trace w' = trace ?w @ es @ [ReportEvent ''reorderArticles'']"
    using end_of_session
      [of env0 ?w "dragging ''q1''" None listAndQueue "onItem ''q3''" "''queue''"
          "[plain ''q1'', plain ''q2'', plain ''q3'']" queue_sort_position]
    by (simp add: w) (simp add: eval_defs)
  have c: "\<exists>w' es. handleDragEnd env0 ?w (dragging ''q1'') (Some (onItem ''q1'')) = Inr w' \<and>
         activeArticle w' = None \<and> activeListId w' = None \<and>
         trace w' = trace ?w @ es @ [ReportEvent ''reorderArticles'']"
    using end_of_session
      [of env0 ?w "dragging ''q1''" None listAndQueue "onItem ''q1''" "''queue''"
          "[plain ''q1'', plain ''q2'', plain ''q3'']" queue_sort_position]
    by (simp add: w) (simp add: eval_defs)
  from a b c show ?thesis
    by (simp add: w) (simp add: example_defs mutate_def)
qed

text \<open>
  Claim C2 as the specification states it (every end event of a drag clears the session
  and reports) fails: an end event without a drop target leaves the drag started on \<open>a1\<close>
  as it is and reports nothing, and so does, up to the logged error, an end event in a
  list whose sort order is unknown.
\<close>

theorem end_of_session_counterexample:
  "handleDragEnd env0
     \<lparr>articleLists = Some queueAndFavorites, activeListId = Some ''queue'',
      activeArticle = Some (plain ''a1''), trace = [], pending = []\<rparr>
     (dragging ''a1'') None
   = Inr \<lparr>articleLists = Some queueAndFavorites, activeListId = Some ''queue'',
          activeArticle = Some (plain ''a1''), trace = [], pending = []\<rparr>
   \<and> handleDragStart (idle queueAndFavorites) (dragging ''a1'')
   = \<lparr>articleLists = Some queueAndFavorites, activeListId = Some ''queue'',
      activeArticle = Some (plain ''a1''), trace = [], pending = []\<rparr>
   \<and> handleDragEnd env0
     \<lparr>articleLists = Some [(''misc'', [plain ''a1'', plain ''a2''])], activeListId = Some ''misc'',
      activeArticle = Some (plain ''a1''), trace = [], pending = []\<rparr>
     (dragging ''a1'') (Some (onItem ''a2''))
   = Inr \<lparr>articleLists = Some [(''misc'', [plain ''a1'', plain ''a2''])],
          activeListId = Some ''misc'', activeArticle = Some (plain ''a1''),
          trace = [ConsoleError ''Could not determine sort position to reorder for list misc''],
          pending = []\<rparr>"
  by (simp add: eval_defs)

subsection \<open>When the cache is handed to the caller\<close>

lemma handleDragOver_trace:
  assumes "handleDragOver e w active over = Inr w'"
  shows "\<exists>es. trace w' = trace w @ es \<and> (\<forall>c. SetArticleLists c \<notin> set es)"
  using assms
  by (auto simp add: handleDragOver_def Let_def mutate_def
      split: option.splits sum.splits if_splits)

lemma handleDragEnd_trace:
  assumes "handleDragEnd e w active over = Inr w'"
  shows "\<exists>es. trace w' = trace w @ es \<and>
           (\<forall>c. SetArticleLists c \<in> set es \<longleftrightarrow>
                  articleLists w' = Some c \<and>
                  (\<exists>ov ls l as k.
                     over = Some ov \<and> articleLists w = Some ls \<and>
                     truthy (activeListId w) = Some l \<and> active_id active \<noteq> over_id ov \<and>
                     map_of ls l = Some as \<and> sortKey l = Some k))"
proof (cases "\<exists>ov ls l as k.
                     over = Some ov \<and> articleLists w = Some ls \<and>
                     truthy (activeListId w) = Some l \<and> active_id active \<noteq> over_id ov \<and>
                     map_of ls l = Some as \<and> sortKey l = Some k")
  case True
  then obtain ov ls l as k where h:
    "over = Some ov" "articleLists w = Some ls" "truthy (activeListId w) = Some l"
    "active_id active \<noteq> over_id ov" "map_of ls l = Some as" "sortKey l = Some k"
    by blast
  with assms obtain moved c where
    "w' = w\<lparr>articleLists := Some (AList.update l moved ls),
            activeArticle := None, activeListId := None,
            trace := trace w @ mutate e c
              @ [SetArticleLists (AList.update l moved ls), ReportEvent ''reorderArticles'']\<rparr>"
    and "\<forall>d. c \<noteq> SetArticleLists d"
    by (auto simp add: handleDragEnd_def Let_def split: option.splits)
  with True show ?thesis
    by (intro exI [of _ "mutate e c
              @ [SetArticleLists (AList.update l moved ls), ReportEvent ''reorderArticles'']"])
       (auto simp add: mutate_def)
next
  case False
  with assms have "trace w' = trace w
      \<or> trace w' = trace w @ mutate e (UpdateArticle (active_id active) False None)
      \<or> (\<exists>m. trace w' = trace w @ [ConsoleError m])
      \<or> trace w' = trace w @ [ReportEvent ''reorderArticles'']"
    by (auto simp add: handleDragEnd_def Let_def split: option.splits if_splits)
  with False show ?thesis
    by (auto simp add: mutate_def)
qed

text \<open>
  C8, as the code has it. An over event never calls \<^verbatim>\<open>setArticleLists\<close>, whatever it
  does to the cache. An end event calls it exactly when it reorders within the recorded
  list (a drop target other than the active identifier, a recorded list that is a key of
  the cache, a known sort order), and then with the cache as the move has left it.
\<close>

theorem setter_only_after_reorder:
  "(\<forall>w'. handleDragOver e w active over = Inr w' \<longrightarrow>
      (\<exists>es. trace w' = trace w @ es \<and> (\<forall>c. SetArticleLists c \<notin> set es))) \<and>
   (\<forall>w'. handleDragEnd e w active over = Inr w' \<longrightarrow>
      (\<exists>es. trace w' = trace w @ es \<and>
         (\<forall>c. SetArticleLists c \<in> set es \<longleftrightarrow>
                articleLists w' = Some c \<and>
                (\<exists>ov ls l as k.
                   over = Some ov \<and> articleLists w = Some ls \<and>
                   truthy (activeListId w) = Some l \<and> active_id active \<noteq> over_id ov \<and>
                   map_of ls l = Some as \<and> sortKey l = Some k))))"
proof (intro conjI allI impI)
  fix w'
  assume "handleDragOver e w active over = Inr w'"
  then show "\<exists>es. trace w' = trace w @ es \<and> (\<forall>c. SetArticleLists c \<notin> set es)"
    by (rule handleDragOver_trace)
next
  fix w'
  assume "handleDragEnd e w active over = Inr w'"
  then show "\<exists>es. trace w' = trace w @ es \<and>
         (\<forall>c. SetArticleLists c \<in> set es \<longleftrightarrow>
                articleLists w' = Some c \<and>
                (\<exists>ov ls l as k.
                   over = Some ov \<and> articleLists w = Some ls \<and>
                   truthy (activeListId w) = Some l \<and> active_id active \<noteq> over_id ov \<and>
                   map_of ls l = Some as \<and> sortKey l = Some k))"
    by (rule handleDragEnd_trace)
qed

theorem setter_only_after_reorder_witness:
  "handleDragOver env0 (handleDragStart (idle listAndQueue) (dragging ''a1''))
     (dragging ''a1'') (Some (onContainer ''queue''))
   = Inr \<lparr>articleLists =
            Some [(''list'', []),
                  (''queue'', [plain ''q1'', plain ''q2'', plain ''a1'', plain ''q3''])],
          activeListId = Some ''queue'',
          activeArticle = Some (plain ''a1''),
          trace = [UpdateArticle ''a1'' True (Some 1700000000000),
                   ReportEvent ''addArticleToQueue''],
          pending = [\<lparr>cb_targetList = ''queue'', cb_targetIndex = - 1, cb_articleId = ''a1''\<rparr>]\<rparr>
   \<and> (\<forall>c. SetArticleLists c \<notin> set [UpdateArticle ''a1'' True (Some 1700000000000),
                                         ReportEvent ''addArticleToQueue''])
   \<and> handleDragEnd env0 (handleDragStart (idle listAndQueue) (dragging ''q3''))
     (dragging ''q3'') (Some (onItem ''q1''))
   = Inr \<lparr>articleLists =
            Some [(''list'', [plain ''a1'']), (''queue'', [plain ''q3'', plain ''q1'', plain ''q2''])],
          activeListId = None,
          activeArticle = None,
          trace = [MoveArticlePosition ''q3'' None (Some ''q1'') queue_sort_position,
                   SetArticleLists
                     [(''list'', [plain ''a1'']),
                      (''queue'', [plain ''q3'', plain ''q1'', plain ''q2''])],
                   ReportEvent ''reorderArticles''],
          pending = []\<rparr>"
proof -
  let ?w = "handleDragStart (idle listAndQueue) (dragging ''a1'')"
  let ?w1 = "\<lparr>articleLists =
            Some [(''list'', []),
                  (''queue'', [plain ''q1'', plain ''q2'', plain ''a1'', plain ''q3''])],
          activeListId = Some ''queue'',
          activeArticle = Some (plain ''a1''),
          trace = [UpdateArticle ''a1'' True (Some 1700000000000),
                   ReportEvent ''addArticleToQueue''],
          pending = [\<lparr>cb_targetList = ''queue'', cb_targetIndex = - 1, cb_articleId = ''a1''\<rparr>]\<rparr>"
  let ?v = "handleDragStart (idle listAndQueue) (dragging ''q3'')"
  let ?moved = "[(''list'', [plain ''a1'']), (''queue'', [plain ''q3'', plain ''q1'', plain ''q2''])]"
  let ?v1 = "\<lparr>articleLists = Some ?moved,
          activeListId = None,
          activeArticle = None,
          trace = [MoveArticlePosition ''q3'' None (Some ''q1'') queue_sort_position,
                   SetArticleLists ?moved,
                   ReportEvent ''reorderArticles''],
          pending = []\<rparr>"
  have w: "trace ?w = []" and v: "trace ?v = []"
    by (simp_all add: eval_defs)
  have over: "handleDragOver env0 ?w (dragging ''a1'') (Some (onContainer ''queue'')) = Inr ?w1"
    by (simp add: eval_defs)
  have end1: "handleDragEnd env0 ?v (dragging ''q3'') (Some (onItem ''q1'')) = Inr ?v1"
    by (simp add: eval_defs)
  from setter_only_after_reorder
    [of env0 ?w "dragging ''a1''" "Some (onContainer ''queue'')"] over
  have "\<exists>es. trace ?w1 = trace ?w @ es \<and> (\<forall>c. SetArticleLists c \<notin> set es)"
    by blast
  then have "\<forall>c. SetArticleLists c \<notin> set (trace ?w1)"
    by (simp only: w append_Nil) blast
  with over end1 show ?thesis by simp
qed

text \<open>
  Claim C8 as the specification states it (the cache is published after any mutation,
  over events included) fails: dragging \<open>a1\<close> from \<^verbatim>\<open>"list"\<close> onto \<open>q2\<close> changes both
  lists, and neither this over event nor the end event on \<open>a1\<close> itself calls
  \<^verbatim>\<open>setArticleLists\<close>.
\<close>

theorem setter_only_after_reorder_counterexample:
  "handleDragOver env0 (handleDragStart (idle listAndQueue) (dragging ''a1''))
     (dragging ''a1'') (Some (onItem ''q2''))
   = Inr \<lparr>articleLists =
            Some [(''list'', []),
                  (''queue'', [plain ''q1'', plain ''a1'', plain ''q2'', plain ''q3''])],
          activeListId = Some ''queue'',
          activeArticle = Some (plain ''a1''),
          trace = [UpdateArticle ''a1'' True (Some 1700000000000),
                   ReportEvent ''addArticleToQueue''],
          pending = [\<lparr>cb_targetList = ''queue'', cb_targetIndex = 1, cb_articleId = ''a1''\<rparr>]\<rparr>
   \<and> handleDragEnd env0
       \<lparr>articleLists =
            Some [(''list'', []),
                  (''queue'', [plain ''q1'', plain ''a1'', plain ''q2'', plain ''q3''])],
          activeListId = Some ''queue'',
          activeArticle = Some (plain ''a1''),
          trace = [UpdateArticle ''a1'' True (Some 1700000000000),
                   ReportEvent ''addArticleToQueue''],
          pending = [\<lparr>cb_targetList = ''queue'', cb_targetIndex = 1, cb_articleId = ''a1''\<rparr>]\<rparr>
       (dragging ''a1'') (Some (onItem ''a1''))
   = Inr \<lparr>articleLists =
            Some [(''list'', []),
                  (''queue'', [plain ''q1'', plain ''a1'', plain ''q2'', plain ''q3''])],
          activeListId = None,
          activeArticle = None,
          trace = [UpdateArticle ''a1'' True (Some 1700000000000),
                   ReportEvent ''addArticleToQueue'',
                   ReportEvent ''reorderArticles''],
          pending = [\<lparr>cb_targetList = ''queue'', cb_targetIndex = 1, cb_articleId = ''a1''\<rparr>]\<rparr>"
  by (simp add: eval_defs)

end
